theory Spec2Isabelle
  imports Main "HOL-Library.Word" "HOL-Library.Signed_Division"
begin

unbundle bit_operations_syntax

section \<open>Machine types\<close>

type_synonym u8 = "8 word"
type_synonym u16 = "16 word"
type_synonym u32 = "32 word"

text \<open>\<open>int32_t\<close> values are 32-bit words read in two's complement (\<open>sint\<close>, \<open><s\<close>,
  \<open>sdiv\<close>, \<open>smod\<close>); \<open>uint32_t\<close> values are the same words read with \<open>unat\<close>.\<close>

type_synonym i32 = "32 word"

text \<open>C++ \<open>/\<close> and \<open>%\<close> on \<open>int32_t\<close> truncate towards zero.\<close>

definition sdiv32 :: "i32 \<Rightarrow> i32 \<Rightarrow> i32" where
  "sdiv32 a b = word_of_int (sint a sdiv sint b)"

definition smod32 :: "i32 \<Rightarrow> i32 \<Rightarrow> i32" where
  "smod32 a b = word_of_int (sint a smod sint b)"

section \<open>Parameter control modes (vmprog\_format.hpp, enum vmprog\_parameter\_control\_mode\_v1\_0)\<close>

text \<open>The enumeration has \<open>uint32_t\<close> as underlying type; a mode read from a package is any
  32-bit value, so the enumerators are constants of type \<open>u32\<close>.\<close>

abbreviation (input) mode_linear :: u32 where "mode_linear \<equiv> 0"
abbreviation (input) mode_linear_half :: u32 where "mode_linear_half \<equiv> 1"
abbreviation (input) mode_linear_quarter :: u32 where "mode_linear_quarter \<equiv> 2"
abbreviation (input) mode_linear_double :: u32 where "mode_linear_double \<equiv> 3"
abbreviation (input) mode_boolean :: u32 where "mode_boolean \<equiv> 4"
abbreviation (input) mode_steps_4 :: u32 where "mode_steps_4 \<equiv> 5"
abbreviation (input) mode_steps_8 :: u32 where "mode_steps_8 \<equiv> 6"
abbreviation (input) mode_steps_16 :: u32 where "mode_steps_16 \<equiv> 7"
abbreviation (input) mode_steps_32 :: u32 where "mode_steps_32 \<equiv> 8"
abbreviation (input) mode_steps_64 :: u32 where "mode_steps_64 \<equiv> 9"
abbreviation (input) mode_steps_128 :: u32 where "mode_steps_128 \<equiv> 10"
abbreviation (input) mode_steps_256 :: u32 where "mode_steps_256 \<equiv> 11"
abbreviation (input) mode_polar_degs_90 :: u32 where "mode_polar_degs_90 \<equiv> 12"
abbreviation (input) mode_polar_degs_180 :: u32 where "mode_polar_degs_180 \<equiv> 13"
abbreviation (input) mode_polar_degs_360 :: u32 where "mode_polar_degs_360 \<equiv> 14"
abbreviation (input) mode_polar_degs_720 :: u32 where "mode_polar_degs_720 \<equiv> 15"
abbreviation (input) mode_polar_degs_1440 :: u32 where "mode_polar_degs_1440 \<equiv> 16"
abbreviation (input) mode_polar_degs_2880 :: u32 where "mode_polar_degs_2880 \<equiv> 17"
abbreviation (input) mode_quad_in :: u32 where "mode_quad_in \<equiv> 18"
abbreviation (input) mode_quad_out :: u32 where "mode_quad_out \<equiv> 19"
abbreviation (input) mode_quad_in_out :: u32 where "mode_quad_in_out \<equiv> 20"
abbreviation (input) mode_sine_in :: u32 where "mode_sine_in \<equiv> 21"
abbreviation (input) mode_sine_out :: u32 where "mode_sine_out \<equiv> 22"
abbreviation (input) mode_sine_in_out :: u32 where "mode_sine_in_out \<equiv> 23"
abbreviation (input) mode_circ_in :: u32 where "mode_circ_in \<equiv> 24"
abbreviation (input) mode_circ_out :: u32 where "mode_circ_out \<equiv> 25"
abbreviation (input) mode_circ_in_out :: u32 where "mode_circ_in_out \<equiv> 26"
abbreviation (input) mode_quint_in :: u32 where "mode_quint_in \<equiv> 27"
abbreviation (input) mode_quint_out :: u32 where "mode_quint_out \<equiv> 28"
abbreviation (input) mode_quint_in_out :: u32 where "mode_quint_in_out \<equiv> 29"
abbreviation (input) mode_quart_in :: u32 where "mode_quart_in \<equiv> 30"
abbreviation (input) mode_quart_out :: u32 where "mode_quart_out \<equiv> 31"
abbreviation (input) mode_quart_in_out :: u32 where "mode_quart_in_out \<equiv> 32"
abbreviation (input) mode_expo_in :: u32 where "mode_expo_in \<equiv> 33"
abbreviation (input) mode_expo_out :: u32 where "mode_expo_out \<equiv> 34"
abbreviation (input) mode_expo_in_out :: u32 where "mode_expo_in_out \<equiv> 35"

section \<open>The curve kernel (vmprog\_parameter\_utils.hpp)\<close>

text \<open>\<open>clamp_u16(value, min_val, max_val)\<close>: signed comparisons, then the cast to
  \<open>uint16_t\<close>.\<close>

definition clamp_u16 :: "i32 \<Rightarrow> i32 \<Rightarrow> i32 \<Rightarrow> u16" where
  "clamp_u16 v min_val max_val =
     ucast (if v <s min_val then min_val else if max_val <s v then max_val else v)"

abbreviation (input) max_val :: u32 where "max_val \<equiv> 1023"

text \<open>The wrap of the polar block: \<open>value % 1024\<close> truncates towards zero, a
  negative remainder gets 1024 added, and the result is cast to \<open>uint32_t\<close>.\<close>

definition polar_wrap :: "i32 \<Rightarrow> u32" where
  "polar_wrap v = (let wrapped = smod32 v 1024 in if wrapped <s 0 then wrapped + 1024 else wrapped)"

text \<open>The inner \<open>switch\<close> of the polar block; \<open>None\<close> is its \<open>default: break\<close>, after which
  control falls through to the clamping part.\<close>

definition polar_switch :: "u32 \<Rightarrow> u32 \<Rightarrow> u16 option" where
  "polar_switch t m =
     (if m = mode_polar_degs_90 then Some (ucast (drop_bit 2 t))
      else if m = mode_polar_degs_180 then Some (ucast (drop_bit 1 t))
      else if m = mode_polar_degs_360 then Some (ucast t)
      else if m = mode_polar_degs_720 then Some (ucast (push_bit 1 t AND 1023))
      else if m = mode_polar_degs_1440 then Some (ucast (push_bit 2 t AND 1023))
      else if m = mode_polar_degs_2880 then Some (ucast (push_bit 3 t AND 1023))
      else None)"

text \<open>The clamp of the non-polar part:
  \<open>(value < 0) ? 0 : ((value > max_val) ? max_val : (uint32_t)value)\<close>.\<close>

definition clamp_input :: "i32 \<Rightarrow> u32" where
  "clamp_input v = (if v <s 0 then 0 else if max_val <s v then max_val else v)"

text \<open>The main \<open>switch\<close>, on the clamped input \<open>t\<close>. All arithmetic is \<open>uint32_t\<close>.\<close>

definition curve_switch :: "u32 \<Rightarrow> u32 \<Rightarrow> u16" where
  "curve_switch t m =
     (if m = mode_linear then ucast t
      else if m = mode_linear_half then ucast (drop_bit 1 t)
      else if m = mode_linear_quarter then ucast (drop_bit 2 t)
      else if m = mode_linear_double then clamp_u16 (push_bit 1 t) 0 max_val
      else if m = mode_boolean then (if 512 \<le> t then 1023 else 0)
      else if m = mode_steps_4 then ucast (drop_bit 8 t * 341)
      else if m = mode_steps_8 then ucast (drop_bit 7 t * 146)
      else if m = mode_steps_16 then ucast (drop_bit 6 t * 68)
      else if m = mode_steps_32 then ucast (drop_bit 5 t * 33)
      else if m = mode_steps_64 then ucast (push_bit 4 (drop_bit 4 t))
      else if m = mode_steps_128 then ucast (push_bit 3 (drop_bit 3 t))
      else if m = mode_steps_256 then ucast (push_bit 2 (drop_bit 2 t))
      else if m = mode_quad_in then ucast ((t * t) div 1023)
      else if m = mode_quad_out then
        (let temp = max_val - t in ucast (max_val - (temp * temp) div 1023))
      else if m = mode_quad_in_out then
        (if t < 512 then ucast (drop_bit 9 (t * t))
         else (let temp = max_val - t in ucast (max_val - drop_bit 9 (temp * temp))))
      else if m = mode_sine_in then ucast ((t * t) div 1023)
      else if m = mode_sine_out then
        (let temp = max_val - t in ucast (max_val - (temp * temp) div 1023))
      else if m = mode_sine_in_out then
        (if t < 512 then ucast (drop_bit 11 (t * t))
         else (let temp = max_val - t in ucast (max_val - drop_bit 11 (temp * temp))))
      else if m = mode_circ_in then ucast ((t * t) div 1023)
      else if m = mode_circ_out then
        (let temp = max_val - t in ucast (max_val - (temp * temp) div 1023))
      else if m = mode_circ_in_out then
        (if t < 512 then (let t2 = (t * t) div 1023 in ucast ((t2 * t) div 1023))
         else (let temp = max_val - t; temp2 = (temp * temp) div 1023
               in ucast (max_val - (temp2 * temp) div 1023)))
      else if m = mode_quint_in then
        (let t2 = (t * t) div 1023; t4 = (t2 * t2) div 1023 in ucast ((t4 * t) div 1023))
      else if m = mode_quint_out then
        (let temp = max_val - t; temp2 = (temp * temp) div 1023;
             temp4 = (temp2 * temp2) div 1023
         in ucast (max_val - (temp4 * temp) div 1023))
      else if m = mode_quint_in_out then
        (if t < 512 then
           (let t2 = (t * t) div 1023; t4 = (t2 * t2) div 1023
            in ucast (push_bit 4 (t4 * t) div 1046529))
         else
           (let temp = max_val - t; temp2 = (temp * temp) div 1023;
                temp4 = (temp2 * temp2) div 1023
            in ucast (max_val - push_bit 4 (temp4 * temp) div 1046529)))
      else if m = mode_quart_in then
        (let t2 = (t * t) div 1023 in ucast ((t2 * t2) div 1023))
      else if m = mode_quart_out then
        (let temp = max_val - t; temp2 = (temp * temp) div 1023
         in ucast (max_val - (temp2 * temp2) div 1023))
      else if m = mode_quart_in_out then
        (if t < 512 then
           (let t2 = (t * t) div 1023 in ucast (push_bit 3 (t2 * t2) div 1046529))
         else
           (let temp = max_val - t; temp2 = (temp * temp) div 1023
            in ucast (max_val - push_bit 3 (temp2 * temp2) div 1046529)))
      else if m = mode_expo_in then
        (if t = 0 then 0
         else (let t2 = (t * t) div 1023; t3 = (t2 * t) div 1023 in ucast ((t3 * t) div 1023)))
      else if m = mode_expo_out then
        (if t = max_val then 1023
         else (let temp = max_val - t; temp2 = (temp * temp) div 1023;
                   temp3 = (temp2 * temp) div 1023
               in ucast (max_val - (temp3 * temp) div 1023)))
      else if m = mode_expo_in_out then
        (if t = 0 then 0
         else if t = max_val then 1023
         else if t < 512 then
           (let t2 = (t * t) div 1023; t3 = (t2 * t) div 1023 in ucast (drop_bit 11 (t3 * t)))
         else
           (let temp = max_val - t; temp2 = (temp * temp) div 1023;
                temp3 = (temp2 * temp) div 1023
            in ucast (max_val - drop_bit 11 (temp3 * temp))))
      else ucast t)"

text \<open>\<open>apply_parameter_control_curve(value, mode)\<close>: the polar block is entered when
  \<open>polar_degs_90 \<le> mode \<le> polar_degs_2880\<close> and returns from every case of its switch;
  otherwise the input is clamped and the main switch decides.\<close>

definition apply_parameter_control_curve :: "i32 \<Rightarrow> u32 \<Rightarrow> u16" where
  "apply_parameter_control_curve v m =
     (case (if mode_polar_degs_90 \<le> m \<and> m \<le> mode_polar_degs_2880
            then polar_switch (polar_wrap v) m else None) of
        Some r \<Rightarrow> r
      | None \<Rightarrow> curve_switch (clamp_input v) m)"

section \<open>Validation result codes and binary records (vmprog\_format.hpp)\<close>

datatype vmprog_validation_result =
    ok | invalid_magic | invalid_version | invalid_header_size | invalid_file_size
  | invalid_toc_offset | invalid_toc_size | invalid_toc_count | invalid_artifact_count
  | invalid_parameter_count | invalid_value_label_count | invalid_abi_range
  | string_not_terminated | invalid_hash | invalid_toc_entry | invalid_payload_offset
  | invalid_parameter_values | invalid_enum_value | reserved_field_not_zero

text \<open>The packed structs. Field names carry a prefix per struct (\<open>hdr_\<close>, \<open>toc_\<close>,
  \<open>art_\<close>, \<open>desc_\<close>, \<open>param_\<close>, \<open>cfg_\<close>) because several structs share field names
  such as \<open>flags\<close>, \<open>sha256\<close> and \<open>reserved\<close>. Enumerations are their underlying
  \<open>uint32_t\<close>; fixed-size arrays are lists.\<close>

record vmprog_header_v1_0 =
  hdr_magic :: u32
  hdr_version_major :: u16
  hdr_version_minor :: u16
  hdr_header_size :: u16
  hdr_reserved_pad :: u16
  hdr_file_size :: u32
  hdr_flags :: u32
  hdr_toc_offset :: u32
  hdr_toc_bytes :: u32
  hdr_toc_count :: u32
  hdr_sha256_package :: "u8 list"

record vmprog_toc_entry_v1_0 =
  toc_type :: u32
  toc_flags :: u32
  toc_offset :: u32
  toc_size :: u32
  toc_sha256 :: "u8 list"
  toc_reserved :: "u32 list"

abbreviation (input) expected_magic :: u32 where "expected_magic \<equiv> 0x47504D56"
abbreviation (input) max_file_size :: u32 where "max_file_size \<equiv> 1048576"

text \<open>TOC entry type identifiers (enum vmprog\_toc\_entry\_type\_v1\_0).\<close>

abbreviation (input) type_none :: u32 where "type_none \<equiv> 0"
abbreviation (input) type_config :: u32 where "type_config \<equiv> 1"
abbreviation (input) type_signed_descriptor :: u32 where "type_signed_descriptor \<equiv> 2"
abbreviation (input) type_signature :: u32 where "type_signature \<equiv> 3"
abbreviation (input) type_fpga_bitstream :: u32 where "type_fpga_bitstream \<equiv> 4"
abbreviation (input) type_bitstream_hd_dual :: u32 where "type_bitstream_hd_dual \<equiv> 10"

section \<open>Structural validators (vmprog\_format.hpp)\<close>

text \<open>\<open>validate_vmprog_header_v1_0(header, file_size)\<close>. \<open>sizeof(vmprog_header_v1_0)\<close> and
  \<open>sizeof(vmprog_toc_entry_v1_0)\<close> are 64 (static assertions of the source). \<open>toc_size\<close> is a
  \<open>uint32_t\<close>, so the product and the sum with \<open>toc_offset\<close> wrap at 32 bits.\<close>

definition validate_vmprog_header_v1_0 ::
  "vmprog_header_v1_0 \<Rightarrow> u32 \<Rightarrow> vmprog_validation_result" where
  "validate_vmprog_header_v1_0 header file_size =
     (if hdr_magic header \<noteq> expected_magic then invalid_magic
      else if hdr_version_major header \<noteq> 1 then invalid_version
      else if hdr_header_size header \<noteq> 64 then invalid_header_size
      else if file_size < 64 \<or> file_size > max_file_size \<or> file_size \<noteq> hdr_file_size header
        then invalid_file_size
      else if hdr_toc_count header = 0 \<or> hdr_toc_count header > 256 then invalid_toc_count
      else if hdr_toc_offset header < 64 \<or> hdr_toc_offset header \<ge> file_size
        then invalid_toc_offset
      else (let toc_size = hdr_toc_count header * 64 in
        if hdr_toc_bytes header \<noteq> toc_size \<or> hdr_toc_offset header + toc_size > file_size
        then invalid_toc_size
        else ok))"

text \<open>\<open>validate_vmprog_toc_entry_v1_0(entry, file_size)\<close>. The subtraction
  \<open>file_size - entry.size\<close> is \<open>uint32_t\<close> and wraps. The loop over \<open>reserved[0..3]\<close> returns at
  the first nonzero word.\<close>

definition validate_vmprog_toc_entry_v1_0 ::
  "vmprog_toc_entry_v1_0 \<Rightarrow> u32 \<Rightarrow> vmprog_validation_result" where
  "validate_vmprog_toc_entry_v1_0 entry file_size =
     (if toc_type entry = type_none then invalid_toc_entry
      else if toc_offset entry < 64 \<or> toc_offset entry \<ge> file_size then invalid_payload_offset
      else if toc_size entry > 0 \<and> toc_offset entry > file_size - toc_size entry
        then invalid_payload_offset
      else if list_ex (\<lambda>i. toc_reserved entry ! i \<noteq> 0) [0..<4] then reserved_field_not_zero
      else ok)"

section \<open>Parameter configuration record (vmprog\_format.hpp)\<close>

record vmprog_parameter_config_v1_0 =
  param_parameter_id :: u32
  param_control_mode :: u32
  param_min_value :: u16
  param_max_value :: u16
  param_initial_value :: u16
  param_display_min_value :: "16 word"
  param_display_max_value :: "16 word"
  param_display_float_digits :: u8
  param_value_label_count :: u8
  param_reserved_pad :: "u8 list"
  param_name_label :: "u8 list"
  param_value_labels :: "u8 list list"
  param_suffix_label :: "u8 list"
  param_reserved :: "u8 list"

section \<open>Display strings (vmprog\_parameter\_utils.hpp)\<close>

text \<open>Writes to a caller's \<open>char\<close> buffer are recorded as a log of (index, byte) pairs in
  program order, so that a write past the end of the buffer is visible in the result.\<close>

type_synonym write_log = "(nat \<times> u8) list"

text \<open>The digit loop of \<open>uint32_to_string\<close>: \<open>while (temp > 0 && pos < buffer_size - 1)\<close>,
  least significant digit first; the second argument is the room left, \<open>buffer_size - 1 - pos\<close>.\<close>

fun uint32_digits :: "u32 \<Rightarrow> nat \<Rightarrow> u8 list" where
  "uint32_digits temp 0 = []"
| "uint32_digits temp (Suc room) =
     (if temp = 0 then [] else (0x30 + ucast (temp mod 10)) # uint32_digits (temp div 10) room)"

text \<open>\<open>uint32_to_string(value, buffer, buffer_size)\<close>: the characters left in \<open>buffer\<close> before
  the terminator; the returned count is their number.\<close>

definition uint32_to_string :: "u32 \<Rightarrow> nat \<Rightarrow> u8 list" where
  "uint32_to_string v buffer_size =
     (if buffer_size < 2 then []
      else if v = 0 then [0x30]
      else rev (uint32_digits v (buffer_size - 1)))"

text \<open>The copy loop of \<open>fast_strcpy\<close>: \<open>while (i < max_len - 1 && src[i] != 0)\<close>; the third
  argument is \<open>max_len - 1 - i\<close>. The result is the final \<open>i\<close> and the bytes written; \<open>None\<close> is
  a read past the end of the memory \<open>src\<close> points into.\<close>

fun fast_strcpy_loop :: "u8 list \<Rightarrow> nat \<Rightarrow> nat \<Rightarrow> (nat \<times> write_log) option" where
  "fast_strcpy_loop src i 0 = Some (i, [])"
| "fast_strcpy_loop src i (Suc room) =
     (if length src \<le> i then None
      else if src ! i = 0 then Some (i, [])
      else (case fast_strcpy_loop src (Suc i) room of
              None \<Rightarrow> None
            | Some (j, ws) \<Rightarrow> Some (j, (i, src ! i) # ws)))"

definition fast_strcpy :: "u8 list \<Rightarrow> nat \<Rightarrow> write_log option" where
  "fast_strcpy src max_len =
     (if max_len = 0 then Some []
      else (case fast_strcpy_loop src 0 (max_len - 1) of
              None \<Rightarrow> None
            | Some (i, ws) \<Rightarrow> Some (ws @ [(i, 0)])))"

text \<open>The output loops \<open>for (i = 0; i < len && pos < out_str_size - 1; ++i) out_str[pos++] = buf[i]\<close>:
  the characters still to copy, the limit \<open>out_str_size - 1\<close> and \<open>pos\<close>; the result is the new
  \<open>pos\<close> and the writes.\<close>

fun copy_chars :: "u8 list \<Rightarrow> nat \<Rightarrow> nat \<Rightarrow> nat \<times> write_log" where
  "copy_chars [] lim pos = (pos, [])"
| "copy_chars (c # cs) lim pos =
     (if pos < lim then (case copy_chars cs lim (Suc pos) of (p, ws) \<Rightarrow> (p, (pos, c) # ws))
      else (pos, []))"

text \<open>The suffix loop
  \<open>while (suffix_label[idx] != 0 && idx < 4 && pos < out_str_size - 1)\<close>. The fourth
  argument counts the iterations left before \<open>idx\<close> reaches 4. At \<open>idx = 4\<close> the source reads
  one byte past \<open>suffix_label\<close> before it tests \<open>idx < 4\<close>; that byte cannot change the
  outcome.\<close>

fun copy_suffix :: "u8 list \<Rightarrow> nat \<Rightarrow> nat \<Rightarrow> nat \<Rightarrow> nat \<Rightarrow> nat \<times> write_log" where
  "copy_suffix label idx lim pos 0 = (pos, [])"
| "copy_suffix label idx lim pos (Suc k) =
     (if label ! idx \<noteq> 0 \<and> pos < lim
      then (case copy_suffix label (Suc idx) lim (Suc pos) k of
              (p, ws) \<Rightarrow> (p, (pos, label ! idx) # ws))
      else (pos, []))"

text \<open>\<open>vmprog_parameter_display_divisor_lut\<close>.\<close>

definition vmprog_parameter_display_divisor_lut :: "u32 list" where
  "vmprog_parameter_display_divisor_lut = [1, 10, 100, 1000, 10000, 100000, 1000000]"

text \<open>\<open>generate_parameter_value_display_string(value, config, out_str, out_str_size)\<close>. The
  result is the log of writes to \<open>out_str\<close>. \<open>None\<close> is a read outside the configuration
  struct: \<open>label\<close> points at row \<open>index\<close> of \<open>value_labels\<close>, and the memory it can read is
  the rest of the struct from there (the following rows, \<open>suffix_label\<close>, \<open>reserved\<close>).

  The \<open>int16_t\<close> display values are promoted to \<open>int\<close> (\<open>scast\<close>), \<open>curved\<close> is cast to
  \<open>int32_t\<close> (\<open>ucast\<close>), the division truncates, and the absolute value is taken through
  \<open>int64_t\<close> and cast back to \<open>uint32_t\<close>, which is the two's-complement negation.\<close>

definition generate_parameter_value_display_string ::
  "i32 \<Rightarrow> vmprog_parameter_config_v1_0 \<Rightarrow> nat \<Rightarrow> write_log option" where
  "generate_parameter_value_display_string v config out_str_size =
     (if out_str_size = 0 then Some []
      else if 2 \<le> param_value_label_count config then
        (let index = (unat (clamp_u16 v 0 1023) * (unat (param_value_label_count config) - 1))
                       div 1023;
             label = drop (32 * index)
                       (concat (param_value_labels config) @ param_suffix_label config
                          @ param_reserved config)
         in if 16 \<le> index then None else fast_strcpy label out_str_size)
      else
        (let curved = apply_parameter_control_curve v (param_control_mode config);
             display_range = (scast (param_display_max_value config) :: i32)
                               - scast (param_display_min_value config);
             scaled_int = scast (param_display_min_value config)
                            + sdiv32 (ucast curved * display_range) 1023;
             lim = out_str_size - 1;
             (pos0, w0) = (if scaled_int <s 0 then (1, [(0, 0x2D)]) else (0, []));
             abs_value = (if scaled_int <s 0 then - scaled_int else scaled_int);
             divisor = (if param_display_float_digits config < 7
                        then vmprog_parameter_display_divisor_lut
                               ! unat (param_display_float_digits config)
                        else 1000000);
             integer_part = abs_value div divisor;
             fractional_part = abs_value mod divisor;
             (pos1, w1) = copy_chars (uint32_to_string integer_part 12) lim pos0;
             (pos2, w2) =
               (if 0 < param_display_float_digits config \<and> pos1 < lim then
                  (let frac = uint32_to_string fractional_part 12;
                       (p, wz) = copy_chars
                          (replicate (unat (param_display_float_digits config) - length frac) 0x30)
                          lim (Suc pos1);
                       (q, wf) = copy_chars frac lim p
                   in (q, (pos1, 0x2E) # wz @ wf))
                else (pos1, []));
             (pos3, w3) =
               (if param_suffix_label config ! 0 \<noteq> 0 \<and> pos2 < lim
                then copy_suffix (param_suffix_label config) 0 lim pos2 4
                else (pos2, []))
         in Some (w0 @ w1 @ w2 @ w3 @ [(pos3, 0)])))"

section \<open>Crypto facade (vmprog\_crypto.hpp)\<close>

text \<open>The facade wraps two primitives of the Monocypher library, which is not part of the
  repository: the BLAKE2b hash with a 32-byte digest (\<open>crypto_blake2b_init/update/final\<close>;
  a sequence of updates hashes the concatenation of the chunks) and the Ed25519 check
  (\<open>crypto_ed25519_check\<close>, here \<open>True\<close> for its return value 0). Every function below takes
  them as a parameter.\<close>

record crypto_primitives =
  crypto_blake2b_256 :: "u8 list \<Rightarrow> u8 list"
  crypto_ed25519_check :: "u8 list \<Rightarrow> u8 list \<Rightarrow> u8 list \<Rightarrow> bool"

definition sha256_oneshot :: "crypto_primitives \<Rightarrow> u8 list \<Rightarrow> u8 list" where
  "sha256_oneshot cr msg = crypto_blake2b_256 cr msg"

definition ed25519_verify :: "crypto_primitives \<Rightarrow> u8 list \<Rightarrow> u8 list \<Rightarrow> u8 list \<Rightarrow> bool" where
  "ed25519_verify cr sig pub msg = crypto_ed25519_check cr sig pub msg"

text \<open>\<open>secure_compare(a, b, length)\<close>: the differences of all bytes are accumulated with OR.\<close>

definition secure_compare :: "u8 list \<Rightarrow> u8 list \<Rightarrow> nat \<Rightarrow> bool" where
  "secure_compare a b n = (fold (\<lambda>i diff. diff OR (a ! i XOR b ! i)) [0..<n] 0 = 0)"

definition secure_compare_hash :: "u8 list \<Rightarrow> u8 list \<Rightarrow> bool" where
  "secure_compare_hash a b = secure_compare a b 32"

definition verify_hash :: "crypto_primitives \<Rightarrow> u8 list \<Rightarrow> u8 list \<Rightarrow> bool" where
  "verify_hash cr msg expected_hash = secure_compare_hash (sha256_oneshot cr msg) expected_hash"

definition is_hash_zero :: "u8 list \<Rightarrow> bool" where
  "is_hash_zero h = secure_compare_hash h (replicate 32 0)"

section \<open>Records of the signed descriptor and the program configuration\<close>

record vmprog_artifact_hash_v1_0 =
  art_type :: u32
  art_sha256 :: "u8 list"

record vmprog_signed_descriptor_v1_0 =
  desc_config_sha256 :: "u8 list"
  desc_artifact_count :: u8
  desc_reserved_pad :: "u8 list"
  desc_artifacts :: "vmprog_artifact_hash_v1_0 list"
  desc_flags :: u32
  desc_build_id :: u32

record vmprog_program_config_v1_0 =
  cfg_program_id :: "u8 list"
  cfg_program_version_major :: u16
  cfg_program_version_minor :: u16
  cfg_program_version_patch :: u16
  cfg_abi_min_major :: u16
  cfg_abi_min_minor :: u16
  cfg_abi_max_major :: u16
  cfg_abi_max_minor :: u16
  cfg_hw_mask :: u32
  cfg_core_id :: u32
  cfg_program_name :: "u8 list"
  cfg_author :: "u8 list"
  cfg_license :: "u8 list"
  cfg_category :: "u8 list"
  cfg_description :: "u8 list"
  cfg_url :: "u8 list"
  cfg_parameter_count :: u16
  cfg_reserved_pad :: u16
  cfg_parameters :: "vmprog_parameter_config_v1_0 list"
  cfg_reserved :: "u8 list"

section \<open>Packed little-endian views of byte buffers\<close>

text \<open>The source reinterprets bytes of the file as packed structs on a little-endian
  host. \<open>bytes_at bs off n\<close> is the byte range \<open>[off, off + n)\<close>; \<open>le16\<close> and \<open>le32\<close> decode a
  scalar at an offset; the \<open>_view\<close> functions decode a struct from its bytes, field by field
  at the offsets of the packed layout.\<close>

definition bytes_at :: "u8 list \<Rightarrow> nat \<Rightarrow> nat \<Rightarrow> u8 list" where
  "bytes_at bs off n = take n (drop off bs)"

definition le16 :: "u8 list \<Rightarrow> nat \<Rightarrow> u16" where
  "le16 bs off = ucast (bs ! off) OR push_bit 8 (ucast (bs ! (off + 1)))"

definition le32 :: "u8 list \<Rightarrow> nat \<Rightarrow> u32" where
  "le32 bs off = ucast (bs ! off) OR push_bit 8 (ucast (bs ! (off + 1)))
       OR push_bit 16 (ucast (bs ! (off + 2))) OR push_bit 24 (ucast (bs ! (off + 3)))"

definition header_view :: "u8 list \<Rightarrow> vmprog_header_v1_0" where
  "header_view bs =
     \<lparr>hdr_magic = le32 bs 0, hdr_version_major = le16 bs 4, hdr_version_minor = le16 bs 6,
      hdr_header_size = le16 bs 8, hdr_reserved_pad = le16 bs 10, hdr_file_size = le32 bs 12,
      hdr_flags = le32 bs 16, hdr_toc_offset = le32 bs 20, hdr_toc_bytes = le32 bs 24,
      hdr_toc_count = le32 bs 28, hdr_sha256_package = bytes_at bs 32 32\<rparr>"

definition toc_entry_view :: "u8 list \<Rightarrow> vmprog_toc_entry_v1_0" where
  "toc_entry_view bs =
     \<lparr>toc_type = le32 bs 0, toc_flags = le32 bs 4, toc_offset = le32 bs 8,
      toc_size = le32 bs 12, toc_sha256 = bytes_at bs 16 32,
      toc_reserved = map (\<lambda>i. le32 bs (48 + 4 * i)) [0..<4]\<rparr>"

definition artifact_hash_view :: "u8 list \<Rightarrow> vmprog_artifact_hash_v1_0" where
  "artifact_hash_view bs = \<lparr>art_type = le32 bs 0, art_sha256 = bytes_at bs 4 32\<rparr>"

definition signed_descriptor_view :: "u8 list \<Rightarrow> vmprog_signed_descriptor_v1_0" where
  "signed_descriptor_view bs =
     \<lparr>desc_config_sha256 = bytes_at bs 0 32, desc_artifact_count = bs ! 32,
      desc_reserved_pad = bytes_at bs 33 3,
      desc_artifacts = map (\<lambda>i. artifact_hash_view (bytes_at bs (36 + 36 * i) 36)) [0..<8],
      desc_flags = le32 bs 324, desc_build_id = le32 bs 328\<rparr>"

definition parameter_config_view :: "u8 list \<Rightarrow> vmprog_parameter_config_v1_0" where
  "parameter_config_view bs =
     \<lparr>param_parameter_id = le32 bs 0, param_control_mode = le32 bs 4,
      param_min_value = le16 bs 8, param_max_value = le16 bs 10,
      param_initial_value = le16 bs 12, param_display_min_value = le16 bs 14,
      param_display_max_value = le16 bs 16, param_display_float_digits = bs ! 18,
      param_value_label_count = bs ! 19, param_reserved_pad = bytes_at bs 20 2,
      param_name_label = bytes_at bs 22 32,
      param_value_labels = map (\<lambda>i. bytes_at bs (54 + 32 * i) 32) [0..<16],
      param_suffix_label = bytes_at bs 566 4, param_reserved = bytes_at bs 570 2\<rparr>"

definition program_config_view :: "u8 list \<Rightarrow> vmprog_program_config_v1_0" where
  "program_config_view bs =
     \<lparr>cfg_program_id = bytes_at bs 0 64, cfg_program_version_major = le16 bs 64,
      cfg_program_version_minor = le16 bs 66, cfg_program_version_patch = le16 bs 68,
      cfg_abi_min_major = le16 bs 70, cfg_abi_min_minor = le16 bs 72,
      cfg_abi_max_major = le16 bs 74, cfg_abi_max_minor = le16 bs 76,
      cfg_hw_mask = le32 bs 78, cfg_core_id = le32 bs 82,
      cfg_program_name = bytes_at bs 86 32, cfg_author = bytes_at bs 118 64,
      cfg_license = bytes_at bs 182 32, cfg_category = bytes_at bs 214 32,
      cfg_description = bytes_at bs 246 128, cfg_url = bytes_at bs 374 128,
      cfg_parameter_count = le16 bs 502, cfg_reserved_pad = le16 bs 504,
      cfg_parameters = map (\<lambda>i. parameter_config_view (bytes_at bs (506 + 572 * i) 572)) [0..<12],
      cfg_reserved = bytes_at bs 7370 2\<rparr>"

section \<open>Validators of the descriptor and the configuration (vmprog\_format.hpp)\<close>

definition is_string_terminated :: "u8 list \<Rightarrow> nat \<Rightarrow> bool" where
  "is_string_terminated str n = list_ex (\<lambda>i. str ! i = 0) [0..<n]"

definition validate_vmprog_artifact_hash_v1_0 ::
  "vmprog_artifact_hash_v1_0 \<Rightarrow> vmprog_validation_result" where
  "validate_vmprog_artifact_hash_v1_0 artifact =
     (if art_type artifact > type_bitstream_hd_dual then invalid_enum_value else ok)"

text \<open>The loop over the used slots \<open>[0, artifact_count)\<close>.\<close>

fun validate_used_artifacts :: "vmprog_artifact_hash_v1_0 list \<Rightarrow> vmprog_validation_result" where
  "validate_used_artifacts [] = ok"
| "validate_used_artifacts (a # as) =
     (if art_type a = type_none then invalid_artifact_count
      else if validate_vmprog_artifact_hash_v1_0 a \<noteq> ok then validate_vmprog_artifact_hash_v1_0 a
      else validate_used_artifacts as)"

text \<open>The loop over the unused slots \<open>[artifact_count, 8)\<close>.\<close>

fun validate_unused_artifacts :: "vmprog_artifact_hash_v1_0 list \<Rightarrow> vmprog_validation_result" where
  "validate_unused_artifacts [] = ok"
| "validate_unused_artifacts (a # as) =
     (if art_type a \<noteq> type_none then invalid_artifact_count
      else if list_ex (\<lambda>j. art_sha256 a ! j \<noteq> 0) [0..<32] then reserved_field_not_zero
      else validate_unused_artifacts as)"

definition validate_vmprog_signed_descriptor_v1_0 ::
  "vmprog_signed_descriptor_v1_0 \<Rightarrow> vmprog_validation_result" where
  "validate_vmprog_signed_descriptor_v1_0 descriptor =
     (if desc_artifact_count descriptor > 8 then invalid_artifact_count
      else if list_ex (\<lambda>i. desc_reserved_pad descriptor ! i \<noteq> 0) [0..<3]
        then reserved_field_not_zero
      else if validate_used_artifacts
                (take (unat (desc_artifact_count descriptor)) (desc_artifacts descriptor)) \<noteq> ok
        then validate_used_artifacts
                (take (unat (desc_artifact_count descriptor)) (desc_artifacts descriptor))
      else validate_unused_artifacts
             (drop (unat (desc_artifact_count descriptor)) (take 8 (desc_artifacts descriptor))))"

definition validate_vmprog_parameter_config_v1_0 ::
  "vmprog_parameter_config_v1_0 \<Rightarrow> vmprog_validation_result" where
  "validate_vmprog_parameter_config_v1_0 param =
     (if param_parameter_id param > 12 then invalid_enum_value
      else if param_control_mode param > mode_expo_in_out then invalid_enum_value
      else if param_value_label_count param > 16 then invalid_value_label_count
      else if param_min_value param > param_max_value param then invalid_parameter_values
      else if param_initial_value param < param_min_value param
              \<or> param_initial_value param > param_max_value param
        then invalid_parameter_values
      else if param_display_max_value param <s param_display_min_value param
        then invalid_parameter_values
      else if \<not> is_string_terminated (param_name_label param) 32
              \<or> \<not> is_string_terminated (param_suffix_label param) 4
        then string_not_terminated
      else if list_ex (\<lambda>i. \<not> is_string_terminated (param_value_labels param ! i) 32)
                [0..<unat (param_value_label_count param)]
        then string_not_terminated
      else if list_ex (\<lambda>i. param_reserved_pad param ! i \<noteq> 0 \<or> param_reserved param ! i \<noteq> 0)
                [0..<2]
        then reserved_field_not_zero
      else ok)"

text \<open>The loop over the used parameters \<open>[0, parameter_count)\<close>.\<close>

fun validate_parameters :: "vmprog_parameter_config_v1_0 list \<Rightarrow> vmprog_validation_result" where
  "validate_parameters [] = ok"
| "validate_parameters (p # ps) =
     (if validate_vmprog_parameter_config_v1_0 p \<noteq> ok then validate_vmprog_parameter_config_v1_0 p
      else validate_parameters ps)"

definition validate_vmprog_program_config_v1_0 ::
  "vmprog_program_config_v1_0 \<Rightarrow> vmprog_validation_result" where
  "validate_vmprog_program_config_v1_0 config =
     (if cfg_parameter_count config > 12 then invalid_parameter_count
      else if cfg_abi_min_major config > cfg_abi_max_major config
              \<or> (cfg_abi_min_major config = cfg_abi_max_major config
                  \<and> cfg_abi_min_minor config > cfg_abi_max_minor config)
        then invalid_abi_range
      else if cfg_abi_min_major config = 0 \<or> cfg_abi_max_major config = 0 then invalid_abi_range
      else if \<not> is_string_terminated (cfg_program_id config) 64
              \<or> \<not> is_string_terminated (cfg_program_name config) 32
              \<or> \<not> is_string_terminated (cfg_author config) 64
              \<or> \<not> is_string_terminated (cfg_license config) 32
              \<or> \<not> is_string_terminated (cfg_category config) 32
              \<or> \<not> is_string_terminated (cfg_description config) 128
        then string_not_terminated
      else if cfg_program_id config ! 0 = 0 \<or> cfg_program_name config ! 0 = 0
        then string_not_terminated
      else if cfg_hw_mask config = 0 then invalid_enum_value
      else if cfg_core_id config = 0 then invalid_enum_value
      else if cfg_reserved_pad config \<noteq> 0 \<or> cfg_reserved config ! 0 \<noteq> 0
              \<or> cfg_reserved config ! 1 \<noteq> 0
        then reserved_field_not_zero
      else validate_parameters
             (take (unat (cfg_parameter_count config)) (cfg_parameters config)))"

section \<open>TOC helpers, integrity and package validation (vmprog\_format.hpp)\<close>

text \<open>A pointer into \<open>file_data\<close> that a TOC entry supplies is read with a bounds test
  against the buffer: \<open>None\<close> is a read past the end of \<open>file_data\<close>, which the C++ code would
  perform unchecked. Reads that the header checks have already confined to
  \<open>[0, file_size)\<close> use \<open>bytes_at\<close> directly; the caller's buffer holds \<open>file_size\<close> bytes.\<close>

definition read_bytes :: "u8 list \<Rightarrow> nat \<Rightarrow> nat \<Rightarrow> u8 list option" where
  "read_bytes file_data off n =
     (if off + n \<le> length file_data then Some (bytes_at file_data off n) else None)"

text \<open>The array \<open>toc = (vmprog_toc_entry_v1_0*)(file_data + header.toc_offset)\<close>, entries
  \<open>toc[0 .. toc_count)\<close>.\<close>

definition toc_of :: "u8 list \<Rightarrow> vmprog_header_v1_0 \<Rightarrow> vmprog_toc_entry_v1_0 list" where
  "toc_of file_data header =
     map (\<lambda>i. toc_entry_view (bytes_at file_data (unat (hdr_toc_offset header) + 64 * i) 64))
       [0..<unat (hdr_toc_count header)]"

text \<open>\<open>find_toc_entry\<close> returns the first entry of the type, \<open>count_toc_entries\<close> counts
  them.\<close>

fun find_toc_entry :: "vmprog_toc_entry_v1_0 list \<Rightarrow> u32 \<Rightarrow> vmprog_toc_entry_v1_0 option" where
  "find_toc_entry [] ty = None"
| "find_toc_entry (e # es) ty = (if toc_type e = ty then Some e else find_toc_entry es ty)"

definition has_toc_entry :: "vmprog_toc_entry_v1_0 list \<Rightarrow> u32 \<Rightarrow> bool" where
  "has_toc_entry toc ty = (find_toc_entry toc ty \<noteq> None)"

fun count_toc_entries :: "vmprog_toc_entry_v1_0 list \<Rightarrow> u32 \<Rightarrow> u32" where
  "count_toc_entries [] ty = 0"
| "count_toc_entries (e # es) ty =
     (if toc_type e = ty then count_toc_entries es ty + 1 else count_toc_entries es ty)"

text \<open>The loop of \<open>verify_all_payload_hashes\<close> over the TOC entries in index order.\<close>

fun verify_payload_hashes_loop ::
  "crypto_primitives \<Rightarrow> u8 list \<Rightarrow> u32 \<Rightarrow> vmprog_toc_entry_v1_0 list \<Rightarrow>
   vmprog_validation_result option" where
  "verify_payload_hashes_loop cr file_data file_size [] = Some ok"
| "verify_payload_hashes_loop cr file_data file_size (e # es) =
     (if toc_size e = 0 then verify_payload_hashes_loop cr file_data file_size es
      else if validate_vmprog_toc_entry_v1_0 e file_size \<noteq> ok
        then Some (validate_vmprog_toc_entry_v1_0 e file_size)
      else (case read_bytes file_data (unat (toc_offset e)) (unat (toc_size e)) of
              None \<Rightarrow> None
            | Some payload \<Rightarrow>
                if \<not> verify_hash cr payload (toc_sha256 e) then Some invalid_hash
                else verify_payload_hashes_loop cr file_data file_size es))"

definition verify_all_payload_hashes ::
  "crypto_primitives \<Rightarrow> u8 list \<Rightarrow> u32 \<Rightarrow> vmprog_header_v1_0 \<Rightarrow>
   vmprog_validation_result option" where
  "verify_all_payload_hashes cr file_data file_size header =
     verify_payload_hashes_loop cr file_data file_size (toc_of file_data header)"

text \<open>\<open>calculate_package_sha256\<close>: \<open>None\<close> is its \<open>false\<close>; otherwise the digest of bytes
  \<open>[0, 32)\<close>, 32 zero bytes and bytes \<open>[64, file_size)\<close>.\<close>

definition calculate_package_sha256 ::
  "crypto_primitives \<Rightarrow> u8 list \<Rightarrow> u32 \<Rightarrow> u8 list option" where
  "calculate_package_sha256 cr file_data file_size =
     (if file_size < 64 then None
      else Some (crypto_blake2b_256 cr
             (bytes_at file_data 0 32 @ replicate 32 0 @
              (if file_size > 64 then bytes_at file_data 64 (unat file_size - 64) else []))))"

definition verify_package_sha256 :: "crypto_primitives \<Rightarrow> u8 list \<Rightarrow> u32 \<Rightarrow> bool" where
  "verify_package_sha256 cr file_data file_size =
     (if file_size < 64 then False
      else (case calculate_package_sha256 cr file_data file_size of
              None \<Rightarrow> False
            | Some computed_hash \<Rightarrow>
                secure_compare computed_hash
                  (hdr_sha256_package (header_view (bytes_at file_data 0 64))) 32))"

text \<open>\<open>verify_ed25519_signature\<close>: the message is the 332 bytes of the descriptor struct.\<close>

definition verify_ed25519_signature ::
  "crypto_primitives \<Rightarrow> u8 list \<Rightarrow> u8 list \<Rightarrow> u8 list \<Rightarrow> bool" where
  "verify_ed25519_signature cr signature public_key descriptor_bytes =
     ed25519_verify cr signature public_key descriptor_bytes"

definition is_package_signed :: "vmprog_header_v1_0 \<Rightarrow> bool" where
  "is_package_signed header = (hdr_flags header AND 1 \<noteq> 0)"

text \<open>The loop \<open>for (i = 0; i < toc_count; ++i) validate_vmprog_toc_entry_v1_0(toc[i], file_size)\<close>,
  which returns the first result that is not \<open>ok\<close>.\<close>

fun validate_toc_entries :: "vmprog_toc_entry_v1_0 list \<Rightarrow> u32 \<Rightarrow> vmprog_validation_result" where
  "validate_toc_entries [] file_size = ok"
| "validate_toc_entries (e # es) file_size =
     (if validate_vmprog_toc_entry_v1_0 e file_size \<noteq> ok
      then validate_vmprog_toc_entry_v1_0 e file_size
      else validate_toc_entries es file_size)"

text \<open>The blocks of \<open>validate_vmprog_package\<close>, in source order. Each returns \<open>Some ok\<close> to
  continue with the next block, \<open>Some\<close> error to return it, and \<open>None\<close> for a read outside
  the buffer.\<close>

text \<open>Block "verify payload hashes": all payload hashes, then the package hash unless the
  header field is all zero.\<close>

definition package_hashes_block ::
  "crypto_primitives \<Rightarrow> u8 list \<Rightarrow> u32 \<Rightarrow> vmprog_header_v1_0 \<Rightarrow>
   vmprog_validation_result option" where
  "package_hashes_block cr file_data file_size header =
     (case verify_all_payload_hashes cr file_data file_size header of
        None \<Rightarrow> None
      | Some result \<Rightarrow>
          if result \<noteq> ok then Some result
          else if \<not> is_hash_zero (hdr_sha256_package header)
                  \<and> \<not> verify_package_sha256 cr file_data file_size
            then Some invalid_hash
          else Some ok)"

text \<open>Block "find and validate config if present": only a first \<open>config\<close> entry whose size is
  \<open>sizeof(vmprog_program_config_v1_0) = 7372\<close> is interpreted.\<close>

definition package_config_block ::
  "u8 list \<Rightarrow> vmprog_toc_entry_v1_0 list \<Rightarrow> vmprog_validation_result option" where
  "package_config_block file_data toc =
     (case find_toc_entry toc type_config of
        None \<Rightarrow> Some ok
      | Some config_entry \<Rightarrow>
          if toc_size config_entry = 7372 then
            (case read_bytes file_data (unat (toc_offset config_entry)) 7372 of
               None \<Rightarrow> None
             | Some bs \<Rightarrow> Some (validate_vmprog_program_config_v1_0 (program_config_view bs)))
          else Some ok)"

text \<open>Block "find and validate signed descriptor if present", with the signature check
  nested inside it: only a first \<open>signed_descriptor\<close> entry whose size is
  \<open>sizeof(vmprog_signed_descriptor_v1_0) = 332\<close> is interpreted, and the signature is looked
  at only then. \<open>public_key = None\<close> is the null pointer.\<close>

definition package_descriptor_block ::
  "crypto_primitives \<Rightarrow> u8 list \<Rightarrow> vmprog_header_v1_0 \<Rightarrow> vmprog_toc_entry_v1_0 list \<Rightarrow>
   bool \<Rightarrow> u8 list option \<Rightarrow> vmprog_validation_result option" where
  "package_descriptor_block cr file_data header toc verify_signature public_key =
     (case find_toc_entry toc type_signed_descriptor of
        None \<Rightarrow> Some ok
      | Some desc_entry \<Rightarrow>
          if toc_size desc_entry = 332 then
            (case read_bytes file_data (unat (toc_offset desc_entry)) 332 of
               None \<Rightarrow> None
             | Some descriptor \<Rightarrow>
                 if validate_vmprog_signed_descriptor_v1_0 (signed_descriptor_view descriptor) \<noteq> ok
                 then Some (validate_vmprog_signed_descriptor_v1_0
                              (signed_descriptor_view descriptor))
                 else if verify_signature \<and> is_package_signed header then
                   (case public_key of
                      None \<Rightarrow> Some invalid_hash
                    | Some key \<Rightarrow>
                        (case find_toc_entry toc type_signature of
                           None \<Rightarrow> Some invalid_hash
                         | Some sig_entry \<Rightarrow>
                             if toc_size sig_entry \<noteq> 64 then Some invalid_hash
                             else (case read_bytes file_data (unat (toc_offset sig_entry)) 64 of
                                     None \<Rightarrow> None
                                   | Some signature \<Rightarrow>
                                       if \<not> verify_ed25519_signature cr signature key descriptor
                                       then Some invalid_hash
                                       else Some ok)))
                 else Some ok)
          else Some ok)"

text \<open>\<open>validate_vmprog_package(file_data, file_size, verify_hashes, verify_signature,
  public_key)\<close>.\<close>

definition validate_vmprog_package ::
  "crypto_primitives \<Rightarrow> u8 list \<Rightarrow> u32 \<Rightarrow> bool \<Rightarrow> bool \<Rightarrow> u8 list option \<Rightarrow>
   vmprog_validation_result option" where
  "validate_vmprog_package cr file_data file_size verify_hashes verify_signature public_key =
     (if file_size < 64 then Some invalid_file_size
      else
        (let header = header_view (bytes_at file_data 0 64);
             toc = toc_of file_data header
         in if validate_vmprog_header_v1_0 header file_size \<noteq> ok
            then Some (validate_vmprog_header_v1_0 header file_size)
            else if validate_toc_entries toc file_size \<noteq> ok
            then Some (validate_toc_entries toc file_size)
            else (case (if verify_hashes
                        then package_hashes_block cr file_data file_size header
                        else Some ok) of
                    None \<Rightarrow> None
                  | Some r1 \<Rightarrow>
                      if r1 \<noteq> ok then Some r1
                      else (case package_config_block file_data toc of
                              None \<Rightarrow> None
                            | Some r2 \<Rightarrow>
                                if r2 \<noteq> ok then Some r2
                                else package_descriptor_block cr file_data header toc
                                       verify_signature public_key))))"

section \<open>Reference definitions and example values\<close>

text \<open>The header checks as the specification lists them, over unbounded naturals: magic,
  version major, header size, file-size envelope, TOC count bounds, TOC offset bounds, TOC byte
  size consistency; the result is the code of the first check that fails.\<close>

definition header_first_violation :: "vmprog_header_v1_0 \<Rightarrow> u32 \<Rightarrow> vmprog_validation_result" where
  "header_first_violation h fs =
     (if hdr_magic h \<noteq> 0x47504D56 then invalid_magic
      else if hdr_version_major h \<noteq> 1 then invalid_version
      else if hdr_header_size h \<noteq> 64 then invalid_header_size
      else if \<not> (fs = hdr_file_size h \<and> 64 \<le> unat fs \<and> unat fs \<le> 1048576) then invalid_file_size
      else if \<not> (1 \<le> unat (hdr_toc_count h) \<and> unat (hdr_toc_count h) \<le> 256) then invalid_toc_count
      else if \<not> (64 \<le> unat (hdr_toc_offset h) \<and> unat (hdr_toc_offset h) < unat fs)
        then invalid_toc_offset
      else if \<not> (unat (hdr_toc_bytes h) = unat (hdr_toc_count h) * 64 \<and>
                unat (hdr_toc_offset h) + unat (hdr_toc_count h) * 64 \<le> unat fs)
        then invalid_toc_size
      else ok)"

text \<open>The Euclidean normalisation of the polar modes in the specification's words,
  \<open>((x mod 1024) + 1024) mod 1024\<close>, the inner remainder truncating as in C.\<close>

definition euclidean_mod_1024 :: "int \<Rightarrow> int" where
  "euclidean_mod_1024 x = ((x smod 1024) + 1024) mod 1024"

text \<open>A well-formed header of a 128-byte file with one TOC entry.\<close>

definition example_header :: "vmprog_header_v1_0" where
  "example_header = \<lparr>hdr_magic = 0x47504D56, hdr_version_major = 1, hdr_version_minor = 0,
  hdr_header_size = 64, hdr_reserved_pad = 0, hdr_file_size = 128, hdr_flags = 0, hdr_toc_offset = 64, hdr_toc_bytes = 64, hdr_toc_count = 1,
  hdr_sha256_package = replicate 32 0\<rparr>"

text \<open>A parameter displayed from -100 to 100 without decimals, labels or suffix (the
  configuration of the specification's display-string scenario).\<close>

definition example_parameter :: vmprog_parameter_config_v1_0 where
  "example_parameter =
     \<lparr>param_parameter_id = 1, param_control_mode = mode_linear, param_min_value = 0,
      param_max_value = 1023, param_initial_value = 0, param_display_min_value = - 100,
      param_display_max_value = 100, param_display_float_digits = 0,
      param_value_label_count = 0, param_reserved_pad = [0, 0],
      param_name_label = replicate 32 0, param_value_labels = replicate 16 (replicate 32 0),
      param_suffix_label = [0, 0, 0, 0], param_reserved = [0, 0]\<rparr>"

text \<open>Serialisation of scalars, headers and TOC entries in the packed little-endian
  layout, to build example files the way the repository's tests do with \<open>memcpy\<close>.\<close>

definition bytes_le16 :: "u16 \<Rightarrow> u8 list" where
  "bytes_le16 w = [ucast w, ucast (drop_bit 8 w)]"

definition bytes_le32 :: "u32 \<Rightarrow> u8 list" where
  "bytes_le32 w = [ucast w, ucast (drop_bit 8 w), ucast (drop_bit 16 w), ucast (drop_bit 24 w)]"

definition header_bytes :: "vmprog_header_v1_0 \<Rightarrow> u8 list" where
  "header_bytes h =
     bytes_le32 (hdr_magic h) @ bytes_le16 (hdr_version_major h) @
     bytes_le16 (hdr_version_minor h) @ bytes_le16 (hdr_header_size h) @
     bytes_le16 (hdr_reserved_pad h) @ bytes_le32 (hdr_file_size h) @
     bytes_le32 (hdr_flags h) @ bytes_le32 (hdr_toc_offset h) @
     bytes_le32 (hdr_toc_bytes h) @ bytes_le32 (hdr_toc_count h) @ hdr_sha256_package h"

definition toc_entry_bytes :: "vmprog_toc_entry_v1_0 \<Rightarrow> u8 list" where
  "toc_entry_bytes e =
     bytes_le32 (toc_type e) @ bytes_le32 (toc_flags e) @ bytes_le32 (toc_offset e) @
     bytes_le32 (toc_size e) @ toc_sha256 e @ concat (map bytes_le32 (toc_reserved e))"

text \<open>A TOC entry as \<open>init_toc_entry\<close> leaves it, with type, offset, size and hash set.\<close>

definition mk_toc_entry :: "u32 \<Rightarrow> u32 \<Rightarrow> u32 \<Rightarrow> u8 list \<Rightarrow> vmprog_toc_entry_v1_0" where
  "mk_toc_entry ty off sz h =
     \<lparr>toc_type = ty, toc_flags = 0, toc_offset = off, toc_size = sz, toc_sha256 = h,
      toc_reserved = [0, 0, 0, 0]\<rparr>"

text \<open>A program configuration as \<open>init_vmprog_config\<close> leaves it (version 1.0.0, ABI range
  1.0 to 2.0, hardware \<open>rev_a\<close>, core \<open>yuv444_30b\<close>, no parameters), with \<open>program_id\<close> and
  \<open>program_name\<close> set to \<open>"a"\<close>. \<open>example_config_head\<close> is the 506 bytes before the
  parameter array; the twelve zeroed parameters (6864 bytes) and \<open>reserved[2]\<close> follow: 7372
  bytes.\<close>

definition example_config_head :: "u8 list" where
  "example_config_head =
     (0x61 # replicate 63 0) @
     bytes_le16 1 @ bytes_le16 0 @ bytes_le16 0 @
     bytes_le16 1 @ bytes_le16 0 @ bytes_le16 2 @ bytes_le16 0 @
     bytes_le32 1 @ bytes_le32 1 @
     (0x61 # replicate 31 0) @ replicate 64 0 @ replicate 32 0 @ replicate 32 0 @
     replicate 128 0 @ replicate 128 0 @
     bytes_le16 0 @ bytes_le16 0"

definition example_config_bytes :: "u8 list" where
  "example_config_bytes = example_config_head @ replicate 6864 0 @ [0, 0]"

text \<open>A signed descriptor as \<open>init_signed_descriptor\<close> leaves it, with the given
  \<open>config_sha256\<close>: 332 bytes.\<close>

definition example_descriptor_bytes :: "u8 list \<Rightarrow> u8 list" where
  "example_descriptor_bytes config_sha256 =
     config_sha256 @ [0] @ [0, 0, 0] @ replicate 288 0 @ bytes_le32 0 @ bytes_le32 0"

text \<open>A stand-in for the Monocypher primitives, to instantiate examples with: the digest is
  the length of the message, the sum of its bytes and zero padding (32 bytes); the
  signature check accepts the 64 bytes made of the digests of key followed by message and
  of message followed by key.\<close>

definition example_digest :: "u8 list \<Rightarrow> u8 list" where
  "example_digest msg = bytes_le32 (of_nat (length msg)) @ [fold (+) msg 0] @ replicate 27 0"

definition example_signature :: "u8 list \<Rightarrow> u8 list \<Rightarrow> u8 list" where
  "example_signature pub msg = example_digest (pub @ msg) @ example_digest (msg @ pub)"

definition example_crypto :: crypto_primitives where
  "example_crypto =
     \<lparr>crypto_blake2b_256 = example_digest,
      crypto_ed25519_check = (\<lambda>sig pub msg. sig = example_signature pub msg)\<rparr>"

text \<open>The built-in public key of \<open>vmprog_public_keys.hpp\<close>.\<close>

definition vmprog_public_key_0 :: "u8 list" where
  "vmprog_public_key_0 =
     [0xd4, 0xda, 0x2b, 0x01, 0x98, 0x06, 0x77, 0x89, 0x21, 0x75, 0x3d, 0xa9, 0x1d, 0xb8, 0xef,
      0x9b, 0xb7, 0x9a, 0xac, 0xf4, 0x13, 0x66, 0x70, 0xfd, 0x7c, 0x8d, 0x48, 0x69, 0x1a, 0xd7,
      0x4e, 0x4b]"

text \<open>A 128-byte file whose header has the \<open>signed\<close> flag set and whose only TOC entry is
  an \<open>fpga_bitstream\<close> entry without payload: no signed descriptor, no signature.\<close>

definition signed_without_descriptor :: "u8 list" where
  "signed_without_descriptor =
     header_bytes (example_header\<lparr>hdr_flags := 1\<rparr>) @
     toc_entry_bytes (mk_toc_entry type_fpga_bitstream 64 0 (replicate 32 0))"

text \<open>A signed 8024-byte file: header, three TOC entries (\<open>config\<close> at 256,
  \<open>signed_descriptor\<close> at 7628, \<open>signature\<close> at 7960), the example configuration, a
  descriptor carrying \<open>config_sha256\<close>, and \<open>signature\<close>. The TOC hashes are the digests of
  the payloads under \<open>cr\<close>.\<close>

definition signed_package :: "crypto_primitives \<Rightarrow> u8 list \<Rightarrow> u8 list \<Rightarrow> u8 list" where
  "signed_package cr config_sha256 signature =
     header_bytes (example_header\<lparr>hdr_file_size := 8024, hdr_flags := 1, hdr_toc_bytes := 192,
                                  hdr_toc_count := 3\<rparr>) @
     toc_entry_bytes (mk_toc_entry type_config 256 7372
                        (crypto_blake2b_256 cr example_config_bytes)) @
     toc_entry_bytes (mk_toc_entry type_signed_descriptor 7628 332
                        (crypto_blake2b_256 cr (example_descriptor_bytes config_sha256))) @
     toc_entry_bytes (mk_toc_entry type_signature 7960 64 (crypto_blake2b_256 cr signature)) @
     example_config_bytes @ example_descriptor_bytes config_sha256 @ signature"

text \<open>The signed file whose descriptor carries thirty-two bytes \<open>0x11\<close> as
  \<open>config_sha256\<close>, signed under the built-in key by the stand-in primitives.\<close>

definition mismatched_config_package :: "u8 list" where
  "mismatched_config_package =
     signed_package example_crypto (replicate 32 0x11)
       (example_signature vmprog_public_key_0 (example_descriptor_bytes (replicate 32 0x11)))"

text \<open>A signed 15984-byte file with two entries of each of the types \<open>config\<close>,
  \<open>signed_descriptor\<close> and \<open>signature\<close>: header, six TOC entries, then the example
  configuration (at 448), a descriptor carrying \<open>config_sha256\<close> (at 7820) and \<open>signature\<close>
  (at 8152), followed by the payloads of the second entries, \<open>config2\<close> (7372 bytes at 8216),
  \<open>descriptor2\<close> (332 bytes at 15588) and \<open>signature2\<close> (64 bytes at 15920). The TOC hashes
  are the digests of the payloads under \<open>cr\<close>.\<close>

definition duplicated_package ::
  "crypto_primitives \<Rightarrow> u8 list \<Rightarrow> u8 list \<Rightarrow> u8 list \<Rightarrow> u8 list \<Rightarrow> u8 list \<Rightarrow> u8 list" where
  "duplicated_package cr config_sha256 signature config2 descriptor2 signature2 =
     header_bytes (example_header\<lparr>hdr_file_size := 15984, hdr_flags := 1, hdr_toc_bytes := 384,
                                  hdr_toc_count := 6\<rparr>) @
     toc_entry_bytes (mk_toc_entry type_config 448 7372
                        (crypto_blake2b_256 cr example_config_bytes)) @
     toc_entry_bytes (mk_toc_entry type_signed_descriptor 7820 332
                        (crypto_blake2b_256 cr (example_descriptor_bytes config_sha256))) @
     toc_entry_bytes (mk_toc_entry type_signature 8152 64 (crypto_blake2b_256 cr signature)) @
     toc_entry_bytes (mk_toc_entry type_config 8216 7372 (crypto_blake2b_256 cr config2)) @
     toc_entry_bytes (mk_toc_entry type_signed_descriptor 15588 332
                        (crypto_blake2b_256 cr descriptor2)) @
     toc_entry_bytes (mk_toc_entry type_signature 15920 64 (crypto_blake2b_256 cr signature2)) @
     example_config_bytes @ example_descriptor_bytes config_sha256 @ signature @
     config2 @ descriptor2 @ signature2"

text \<open>The file with duplicate entries under the stand-in primitives: the first descriptor
  carries the digest of the example configuration and is signed under the built-in key; the
  second configuration and the second descriptor are all bytes \<open>0xFF\<close>, the second signature
  is all zero. \<open>duplicate_entries_toc\<close> is its TOC.\<close>

definition duplicate_entries_package :: "u8 list" where
  "duplicate_entries_package =
     duplicated_package example_crypto (example_digest example_config_bytes)
       (example_signature vmprog_public_key_0
          (example_descriptor_bytes (example_digest example_config_bytes)))
       (replicate 7372 0xFF) (replicate 332 0xFF) (replicate 64 0)"

definition duplicate_entries_toc :: "vmprog_toc_entry_v1_0 list" where
  "duplicate_entries_toc =
     [mk_toc_entry type_config 448 7372 (example_digest example_config_bytes),
      mk_toc_entry type_signed_descriptor 7820 332
        (example_digest (example_descriptor_bytes (example_digest example_config_bytes))),
      mk_toc_entry type_signature 8152 64
        (example_digest (example_signature vmprog_public_key_0
           (example_descriptor_bytes (example_digest example_config_bytes)))),
      mk_toc_entry type_config 8216 7372 (example_digest (replicate 7372 0xFF)),
      mk_toc_entry type_signed_descriptor 15588 332 (example_digest (replicate 332 0xFF)),
      mk_toc_entry type_signature 15920 64 (example_digest (replicate 64 0))]"

section \<open>Verification\<close>

subsection \<open>Bounds of the curve arithmetic\<close>

lemma le_1023_unat: "(x \<le> (1023::32 word)) = (unat x \<le> 1023)"
  by (simp add: word_le_nat_alt)

lemma ucast_le_1023: "x \<le> 1023 \<Longrightarrow> (ucast (x::32 word) :: 16 word) \<le> 1023"
  by (simp add: word_le_nat_alt unsigned_ucast_eq take_bit_nat_eq_self)

lemma unat_mul_small:
  "unat (a::32 word) \<le> 1023 \<Longrightarrow> unat (b::32 word) \<le> 1046529 \<Longrightarrow> unat (a * b) = unat a * unat b"
proof -
  assume a: "unat a \<le> 1023" and b: "unat b \<le> 1046529"
  have "unat a * unat b \<le> 1023 * 1046529" using a b by (rule mult_le_mono)
  then have "unat a * unat b < 2 ^ LENGTH(32)" by simp
  then show ?thesis by (simp only: unat_mult_lem)
qed

lemma mul_div_bound:
  assumes "a \<le> 1023" "b \<le> 1023" shows "(a * b) div 1023 \<le> (1023::32 word)"
proof -
  have a: "unat a \<le> 1023" and b: "unat b \<le> 1023" using assms by (simp_all add: le_1023_unat)
  have "unat a * unat b \<le> 1023 * 1023" using a b by (rule mult_le_mono)
  then have "unat a * unat b div 1023 \<le> 1023" by simp
  moreover have "unat (a * b) = unat a * unat b" using a b by (simp add: unat_mul_small)
  ultimately show ?thesis by (simp add: le_1023_unat unat_div)
qed

lemma unat_drop_bit_div: "unat (drop_bit n (w::32 word)) = unat w div 2 ^ n"
  unfolding unat_drop_bit_eq by (rule drop_bit_eq_div)

lemma unat_push_bit_small:
  "unat w * 2 ^ n < 2 ^ 32 \<Longrightarrow> unat (push_bit n (w::32 word)) = unat w * 2 ^ n"
  unfolding unsigned_push_bit_eq by (simp add: take_bit_nat_eq_self push_bit_eq_mult)

lemma div_pow_le_1023: "x \<le> 1023 \<Longrightarrow> x div 2 ^ n \<le> (1023::nat)"
  by (rule order_trans[OF div_le_dividend])

lemma sub_bound: "x \<le> 1023 \<Longrightarrow> 1023 - x \<le> (1023::32 word)"
  by (simp add: word_le_nat_alt unat_sub)

lemma drop_bit_bound: "x \<le> 1023 \<Longrightarrow> drop_bit n x \<le> (1023::32 word)"
proof -
  assume "x \<le> 1023"
  then have "unat x \<le> 1023" by (simp add: le_1023_unat)
  then show ?thesis by (simp add: le_1023_unat unat_drop_bit_div div_pow_le_1023)
qed

lemma drop_bit_mul_bound:
  assumes "a \<le> 1023" "b \<le> 1023" shows "drop_bit 11 (a * b) \<le> (1023::32 word)"
proof -
  have a: "unat a \<le> 1023" and b: "unat b \<le> 1023" using assms by (simp_all add: le_1023_unat)
  have "unat a * unat b \<le> 1023 * 1023" using a b by (rule mult_le_mono)
  then have "unat a * unat b div 2 ^ 11 \<le> 1023" by simp
  moreover have "unat (a * b) = unat a * unat b" using a b by (simp add: unat_mul_small)
  ultimately show ?thesis by (simp add: le_1023_unat unat_drop_bit_div)
qed

lemma drop_bit_9_sq_bound:
  assumes "a < 512" shows "drop_bit 9 (a * a) \<le> (1023::32 word)"
proof -
  have a: "unat a \<le> 511" using assms by (simp add: word_less_nat_alt)
  have "unat a * unat a \<le> 511 * 511" using a a by (rule mult_le_mono)
  then have "unat a * unat a div 2 ^ 9 \<le> 1023" by simp
  moreover have "unat (a * a) = unat a * unat a" using a by (simp add: unat_mul_small)
  ultimately show ?thesis by (simp add: le_1023_unat unat_drop_bit_div)
qed

lemma upper_half_sub: "\<not> t < 512 \<Longrightarrow> t \<le> 1023 \<Longrightarrow> 1023 - t < (512::32 word)"
  by (simp add: word_le_nat_alt word_less_nat_alt unat_sub)

lemma push_bit_div_bound:
  assumes "a \<le> 1023" "b \<le> 1023" "n \<le> 4"
  shows "push_bit n (a * b) div 1046529 \<le> (1023::32 word)"
proof -
  have a: "unat a \<le> 1023" and b: "unat b \<le> 1023" using assms by (simp_all add: le_1023_unat)
  have ab: "unat a * unat b \<le> 1023 * 1023" using a b by (rule mult_le_mono)
  have m: "unat (a * b) = unat a * unat b" using a b by (simp add: unat_mul_small)
  have "(2::nat) ^ n \<le> 2 ^ 4" using assms(3) by (intro power_increasing) simp_all
  with ab have "unat a * unat b * 2 ^ n \<le> (1023 * 1023) * 2 ^ 4" by (rule mult_le_mono)
  then have le: "unat a * unat b * 2 ^ n \<le> 16744464" by simp
  then have lt: "unat (a * b) * 2 ^ n < 2 ^ 32" by (simp add: m)
  have "unat (push_bit n (a * b)) = unat a * unat b * 2 ^ n"
    using unat_push_bit_small[OF lt] by (simp add: m)
  moreover have "unat a * unat b * 2 ^ n div 1046529 \<le> 1023" using le by simp
  ultimately show ?thesis by (simp add: le_1023_unat unat_div)
qed

lemma steps_mul_bound:
  assumes "t \<le> (1023::32 word)"
  shows "drop_bit 8 t * 341 \<le> 1023" "drop_bit 7 t * 146 \<le> 1023"
        "drop_bit 6 t * 68 \<le> 1023" "drop_bit 5 t * 33 \<le> 1023"
proof -
  have t: "unat t \<le> 1023" using assms by (simp add: le_1023_unat)
  have m: "unat (drop_bit k t * c) = unat t div 2 ^ k * unat c" if "unat c \<le> 1023" for k c
  proof -
    have "unat (drop_bit k t) \<le> 1023"
      using t by (simp add: unat_drop_bit_div div_pow_le_1023)
    then have "unat (c * drop_bit k t) = unat c * unat (drop_bit k t)"
      using that by (simp add: unat_mul_small)
    then show ?thesis by (simp add: unat_drop_bit_div mult.commute)
  qed
  have q: "unat t div 2 ^ k \<le> 1023 div 2 ^ k" for k using t by (rule div_le_mono)
  show "drop_bit 8 t * 341 \<le> 1023" using q[of 8] by (simp add: le_1023_unat m)
  show "drop_bit 7 t * 146 \<le> 1023" using q[of 7] by (simp add: le_1023_unat m)
  show "drop_bit 6 t * 68 \<le> 1023" using q[of 6] by (simp add: le_1023_unat m)
  show "drop_bit 5 t * 33 \<le> 1023" using q[of 5] by (simp add: le_1023_unat m)
qed

lemma push_drop_bound: "t \<le> (1023::32 word) \<Longrightarrow> push_bit n (drop_bit n t) \<le> 1023"
proof -
  assume t: "t \<le> 1023"
  then have u: "unat t \<le> 1023" by (simp add: le_1023_unat)
  have "unat t div 2 ^ n * 2 ^ n \<le> unat t" by simp
  then have le: "unat t div 2 ^ n * 2 ^ n \<le> 1023" using u by (rule order_trans)
  then have "unat (drop_bit n t) * 2 ^ n < 2 ^ 32" by (simp add: unat_drop_bit_div)
  then have "unat (push_bit n (drop_bit n t)) = unat t div 2 ^ n * 2 ^ n"
    by (simp add: unat_push_bit_small unat_drop_bit_div)
  then show ?thesis using le by (simp add: le_1023_unat)
qed

lemma and_1023_bound: "(x::32 word) AND 1023 \<le> 1023"
  by (rule word_and_le1)

lemma nonneg_small_unat:
  "\<not> v <s 0 \<Longrightarrow> \<not> 1023 <s v \<Longrightarrow> (v::32 word) \<le> 1023"
proof -
  assume "\<not> v <s 0" "\<not> 1023 <s v"
  then have s: "0 \<le> sint v" "sint v \<le> 1023" by (simp_all add: word_sless_alt)
  have "uint v = sint v mod 2 ^ 32"
    using uint_word_of_int[of "sint v", where 'a=32] by simp
  then have "uint v = sint v" using s by simp
  then show ?thesis using s by (simp add: word_le_def)
qed

lemma clamp_input_bound: "clamp_input v \<le> 1023"
  by (simp add: clamp_input_def nonneg_small_unat)

lemma clamp_u16_bound: "clamp_u16 v 0 1023 \<le> 1023"
  by (simp add: clamp_u16_def nonneg_small_unat ucast_le_1023)

lemmas curve_bounds = ucast_le_1023 mul_div_bound sub_bound drop_bit_bound drop_bit_mul_bound
  drop_bit_9_sq_bound upper_half_sub push_bit_div_bound steps_mul_bound push_drop_bound
  and_1023_bound clamp_u16_bound

lemma curve_switch_bound: "t \<le> 1023 \<Longrightarrow> curve_switch t m \<le> 1023"
  unfolding curve_switch_def Let_def
  by (simp add: curve_bounds)

lemma smod_1024_wrap:
  "(if k smod 1024 < 0 then k smod 1024 + 1024 else k smod 1024) = (k mod 1024 :: int)"
proof -
  have r: "0 \<le> k mod 1024" "k mod 1024 < 1024" by simp_all
  show ?thesis
  proof (cases "sgn k \<noteq> sgn (1024::int) \<and> \<not> 1024 dvd k")
    case True
    then have "k smod 1024 = k mod 1024 - 1024"
      by (simp add: signed_modulo_int_eq_modulo_int[of k 1024])
    then show ?thesis using r by simp
  next
    case False
    then have "k smod 1024 = k mod 1024"
      by (simp add: signed_modulo_int_eq_modulo_int[of k 1024])
    then show ?thesis using r by simp
  qed
qed

lemma smod_1024_range: "- 1024 < (k smod 1024 :: int) \<and> k smod 1024 < 1024"
proof -
  have "0 \<le> \<bar>k\<bar> mod 1024" "\<bar>k\<bar> mod 1024 < 1024" by simp_all
  then show ?thesis by (auto simp add: smod_int_alt_def sgn_if)
qed


lemma sint_small: "- 1024 < k \<Longrightarrow> k < 1024 \<Longrightarrow> sint (word_of_int k :: 32 word) = k"
  by (simp add: sint_sbintrunc' signed_take_bit_int_eq_self)

lemma polar_wrap_eq: "polar_wrap v = word_of_int (sint v mod 1024)"
proof -
  let ?r = "sint v smod 1024"
  have rng: "- 1024 < ?r" "?r < 1024" using smod_1024_range[of "sint v"] by simp_all
  have s: "sint (word_of_int ?r :: 32 word) = ?r" using rng by (rule sint_small)
  have neg: "(word_of_int ?r :: 32 word) <s 0 \<longleftrightarrow> ?r < 0" by (simp add: word_sless_alt s)
  have "polar_wrap v = word_of_int (if ?r < 0 then ?r + 1024 else ?r)"
    by (simp add: polar_wrap_def smod32_def Let_def neg)
  then show ?thesis by (simp only: smod_1024_wrap)
qed

lemma sint_mod_1024: "sint (v::32 word) mod 1024 = uint v mod 1024"
proof -
  have "uint v = sint v mod 2 ^ 32"
    using uint_word_of_int[of "sint v", where 'a=32] by simp
  then have "uint v mod 1024 = (sint v mod 2 ^ 32) mod 1024" by simp
  also have "\<dots> = sint v mod 1024" by (rule mod_mod_cancel) simp
  finally show ?thesis by simp
qed

lemma polar_wrap_uint: "uint (polar_wrap v) = sint v mod 1024"
proof -
  have r: "0 \<le> sint v mod 1024" "sint v mod 1024 < 1024" by simp_all
  then show ?thesis by (simp add: polar_wrap_eq uint_word_of_int)
qed

lemma polar_wrap_bound: "polar_wrap v \<le> 1023"
proof -
  have "sint v mod 1024 < 1024" by simp
  then show ?thesis by (simp add: word_le_def polar_wrap_uint)
qed

lemma polar_wrap_period: "polar_wrap (v + 1024) = polar_wrap v"
proof -
  have "uint (v + 1024) mod 1024 = ((uint v + 1024) mod 2 ^ 32) mod 1024"
    by (simp add: uint_word_ariths)
  also have "\<dots> = (uint v + 1024) mod 1024" by (rule mod_mod_cancel) simp
  also have "\<dots> = uint v mod 1024" by simp
  finally show ?thesis by (simp add: polar_wrap_eq sint_mod_1024)
qed

lemma polar_switch_bound: "t \<le> 1023 \<Longrightarrow> polar_switch t m = Some r \<Longrightarrow> r \<le> 1023"
  unfolding polar_switch_def
  by (auto simp add: curve_bounds split: if_splits)

lemma curve_total_bound: "apply_parameter_control_curve x m \<le> 1023"
proof (cases "if 12 \<le> m \<and> m \<le> 17 then polar_switch (polar_wrap x) m else None")
  case None
  then show ?thesis
    by (simp add: apply_parameter_control_curve_def curve_switch_bound clamp_input_bound)
next
  case (Some r)
  then have "polar_switch (polar_wrap x) m = Some r" by (simp split: if_splits)
  then have "r \<le> 1023" by (rule polar_switch_bound[OF polar_wrap_bound])
  then show ?thesis using Some by (simp add: apply_parameter_control_curve_def)
qed

text \<open>Claim C7: for every mode value in 0..35 and every 32-bit signed input \<open>x\<close>,
  \<open>apply_parameter_control_curve(x, mode)\<close> lies in [0, 1023].\<close>

theorem curve_range:
  "m \<le> 35 \<Longrightarrow> 0 \<le> unat (apply_parameter_control_curve x m) \<and>
     unat (apply_parameter_control_curve x m) \<le> 1023"
  using curve_total_bound[of x m] by (simp add: word_le_nat_alt)

text \<open>Witness for C7: mode \<open>linear_half\<close> at the negative input \<open>-5\<close>.\<close>

theorem curve_range_witness:
  "(1::32 word) \<le> 35 \<and> 0 \<le> unat (apply_parameter_control_curve (- 5) 1) \<and>
     unat (apply_parameter_control_curve (- 5) 1) \<le> 1023"
  using curve_range[of 1 "- 5"] by simp

lemma polar_switch_unknown: "35 < m \<Longrightarrow> polar_switch t m = None"
  by (auto simp add: polar_switch_def)

lemma curve_switch_unknown: "35 < m \<Longrightarrow> curve_switch t m = ucast t"
  by (auto simp add: curve_switch_def)

lemma clamp_u16_clamp_input: "clamp_u16 x 0 1023 = ucast (clamp_input x)"
  by (simp add: clamp_u16_def clamp_input_def)

text \<open>Claim C10: for every mode value greater than 35 and every input \<open>x\<close> the function
  returns \<open>clamp(x, 0, 1023)\<close>, the clamped input passed through, and so a value in
  [0, 1023]. The function is total: every division is by a nonzero constant.\<close>

theorem unknown_mode: "35 < m \<Longrightarrow>
   apply_parameter_control_curve x m = clamp_u16 x 0 1023 \<and>
   unat (apply_parameter_control_curve x m) \<le> 1023"
  using curve_total_bound[of x m]
  by (simp add: apply_parameter_control_curve_def polar_switch_unknown curve_switch_unknown
      clamp_u16_clamp_input word_le_nat_alt)

text \<open>Witness for C10: mode 36 at input 2000, which is clamped to 1023.\<close>

theorem unknown_mode_witness: "(35::32 word) < 36 \<and>
   apply_parameter_control_curve 2000 36 = clamp_u16 2000 0 1023 \<and>
   apply_parameter_control_curve 2000 36 = 1023 \<and>
   unat (apply_parameter_control_curve 2000 36) \<le> 1023"
  using unknown_mode[of 36 2000] by (simp add: clamp_u16_def word_sless_alt)

lemma mode_cases:
  assumes "(m::32 word) \<le> 35"
  shows "m = 0 \<or> m = 1 \<or> m = 2 \<or> m = 3 \<or> m = 4 \<or> m = 5 \<or> m = 6 \<or> m = 7 \<or> m = 8 \<or>
     m = 9 \<or> m = 10 \<or> m = 11 \<or> m = 12 \<or> m = 13 \<or> m = 14 \<or> m = 15 \<or> m = 16 \<or> m = 17 \<or>
     m = 18 \<or> m = 19 \<or> m = 20 \<or> m = 21 \<or> m = 22 \<or> m = 23 \<or> m = 24 \<or> m = 25 \<or> m = 26 \<or>
     m = 27 \<or> m = 28 \<or> m = 29 \<or> m = 30 \<or> m = 31 \<or> m = 32 \<or> m = 33 \<or> m = 34 \<or> m = 35"
proof -
  have "unat m < 36" using assms by (simp add: word_le_nat_alt)
  then show ?thesis by (simp add: word_unat_eq_iff; arith)
qed

text \<open>Claim C8, as amended: for each of the 36 modes \<open>curve(0, mode) = 0\<close>, and
  \<open>curve(1023, mode) = 1023\<close> except that the scaling modes end at their scaled maximum
  (\<open>linear_half\<close> 511, \<open>linear_quarter\<close> 255), the discrete-step modes may fall short by
  less than one step (\<open>steps_8\<close> 1022, \<open>steps_16\<close> 1020, \<open>steps_64\<close> 1008, \<open>steps_128\<close>
  1016, \<open>steps_256\<close> 1020), and the polar modes return the wrapped angle
  (\<open>polar_degs_90\<close> 255, \<open>polar_degs_180\<close> 511, \<open>polar_degs_720\<close> 1022,
  \<open>polar_degs_1440\<close> 1020, \<open>polar_degs_2880\<close> 1016).\<close>

theorem curve_boundaries:
  "m \<le> 35 \<Longrightarrow>
     apply_parameter_control_curve 0 m = 0 \<and>
     apply_parameter_control_curve 1023 m =
       (if m = mode_linear_half \<or> m = mode_polar_degs_180 then 511
        else if m = mode_linear_quarter \<or> m = mode_polar_degs_90 then 255
        else if m = mode_steps_8 \<or> m = mode_polar_degs_720 then 1022
        else if m = mode_steps_16 \<or> m = mode_steps_256 \<or> m = mode_polar_degs_1440 then 1020
        else if m = mode_steps_64 then 1008
        else if m = mode_steps_128 \<or> m = mode_polar_degs_2880 then 1016
        else 1023)"
  by (drule mode_cases, elim disjE; hypsubst; code_simp)

text \<open>Witness for C8 as amended: mode \<open>steps_64\<close>.\<close>

theorem curve_boundaries_witness:
  "mode_steps_64 \<le> 35 \<and> apply_parameter_control_curve 0 mode_steps_64 = 0 \<and>
   apply_parameter_control_curve 1023 mode_steps_64 = 1008"
  using curve_boundaries[of mode_steps_64] by simp

text \<open>Counterexample to C8 as stated: \<open>linear_half\<close> is neither a discrete-step mode nor
  \<open>boolean\<close>, and \<open>curve(1023, linear_half)\<close> is 511, not 1023.\<close>

theorem curve_boundaries_counterexample:
  "apply_parameter_control_curve 1023 mode_linear_half = 511 \<and>
   apply_parameter_control_curve 1023 mode_linear_half \<noteq> 1023"
  by code_simp

lemma euclidean_mod_1024_eq: "euclidean_mod_1024 k = k mod 1024"
proof -
  have w: "k mod 1024 = (if k smod 1024 < 0 then k smod 1024 + 1024 else k smod 1024)"
    by (simp only: smod_1024_wrap)
  show ?thesis
  proof (cases "k smod 1024 < 0")
    case True
    then have "k smod 1024 + 1024 = k mod 1024" using w by simp
    then show ?thesis by (simp add: euclidean_mod_1024_def)
  next
    case False
    then have "k smod 1024 = k mod 1024" using w by simp
    then show ?thesis by (simp add: euclidean_mod_1024_def)
  qed
qed

lemma polar_wrap_spec: "polar_wrap x = word_of_int (euclidean_mod_1024 (sint x))"
  by (simp only: polar_wrap_eq euclidean_mod_1024_eq)

text \<open>Claim C9: \<open>curve(x, polar_degs_360) = curve(x + 1024, polar_degs_360)\<close> with the
  addition wrapping at 32 bits, and every polar mode applies its formula to the Euclidean
  normalisation \<open>t = ((x mod 1024) + 1024) mod 1024\<close> of the signed input: it wraps, it does
  not clamp.\<close>

theorem polar_wrap_euclidean:
  "apply_parameter_control_curve x mode_polar_degs_360 =
     apply_parameter_control_curve (x + 1024) mode_polar_degs_360 \<and>
   euclidean_mod_1024 (sint x) = sint x mod 1024 \<and>
   (let t = word_of_int (euclidean_mod_1024 (sint x)) :: u32 in
      apply_parameter_control_curve x mode_polar_degs_90 = ucast (drop_bit 2 t) \<and>
      apply_parameter_control_curve x mode_polar_degs_180 = ucast (drop_bit 1 t) \<and>
      apply_parameter_control_curve x mode_polar_degs_360 = ucast t \<and>
      apply_parameter_control_curve x mode_polar_degs_720 = ucast (push_bit 1 t AND 1023) \<and>
      apply_parameter_control_curve x mode_polar_degs_1440 = ucast (push_bit 2 t AND 1023) \<and>
      apply_parameter_control_curve x mode_polar_degs_2880 = ucast (push_bit 3 t AND 1023))"
proof -
  have p: "apply_parameter_control_curve y m = the (polar_switch (polar_wrap y) m)"
    if "m \<in> {12, 13, 14, 15, 16, 17}" for y m
    using that by (auto simp add: apply_parameter_control_curve_def polar_switch_def)
  have per: "apply_parameter_control_curve x 14 = apply_parameter_control_curve (x + 1024) 14"
    by (simp add: p polar_wrap_period)
  have e: "euclidean_mod_1024 (sint x) = sint x mod 1024" by (rule euclidean_mod_1024_eq)
  have w: "word_of_int (euclidean_mod_1024 (sint x)) = polar_wrap x" by (simp only: polar_wrap_spec)
  have f: "apply_parameter_control_curve x 12 = ucast (drop_bit 2 (polar_wrap x))"
    "apply_parameter_control_curve x 13 = ucast (drop_bit 1 (polar_wrap x))"
    "apply_parameter_control_curve x 14 = ucast (polar_wrap x)"
    "apply_parameter_control_curve x 15 = ucast (push_bit 1 (polar_wrap x) AND 1023)"
    "apply_parameter_control_curve x 16 = ucast (push_bit 2 (polar_wrap x) AND 1023)"
    "apply_parameter_control_curve x 17 = ucast (push_bit 3 (polar_wrap x) AND 1023)"
    by (simp_all add: p polar_switch_def)
  show ?thesis unfolding w Let_def using per e f by blast
qed

subsection \<open>Header and TOC entry validation\<close>

lemma no_ovf: "unat c \<le> 256 \<Longrightarrow> unat (c * 64 :: 32 word) = unat c * 64"
proof -
  assume "unat c \<le> 256"
  then have "unat c * unat (64::32 word) < 2 ^ LENGTH(32)" by simp
  then show ?thesis by (simp only: unat_mult_lem) simp
qed

lemma add_no_ovf: "unat (o'::32 word) < unat fs \<Longrightarrow> unat (fs::32 word) \<le> 1048576 \<Longrightarrow> unat (c::32 word) \<le> 256 \<Longrightarrow>
   unat (o' + c * 64) = unat o' + unat c * 64"
proof -
  assume a: "unat o' < unat fs" "unat fs \<le> 1048576" "unat c \<le> 256"
  note n = no_ovf[OF a(3)]
  have "unat o' + unat (c * 64) < 2 ^ LENGTH(32)" using a by (simp add: n)
  then have "unat (o' + c * 64) = unat o' + unat (c * 64)" by (simp only: unat_add_lem)
  then show ?thesis by (simp only: n)
qed

lemma header_ok_word:
  "validate_vmprog_header_v1_0 h fs = ok \<longleftrightarrow>
     hdr_magic h = 0x47504D56 \<and> hdr_version_major h = 1 \<and> hdr_header_size h = 64 \<and>
     fs = hdr_file_size h \<and> \<not> fs < 64 \<and> \<not> fs > 1048576 \<and>
     hdr_toc_count h \<noteq> 0 \<and> \<not> hdr_toc_count h > 256 \<and>
     \<not> hdr_toc_offset h < 64 \<and> \<not> hdr_toc_offset h \<ge> fs \<and>
     hdr_toc_bytes h = hdr_toc_count h * 64 \<and> \<not> hdr_toc_offset h + hdr_toc_count h * 64 > fs"
  by (simp add: validate_vmprog_header_v1_0_def Let_def) blast

lemma nonzero_unat: "(c \<noteq> (0::32 word)) = (1 \<le> unat c)"
  by (simp add: Suc_le_eq unat_gt_0)

lemma header_ok_iff:
  "validate_vmprog_header_v1_0 h fs = ok \<longleftrightarrow>
     hdr_magic h = 0x47504D56 \<and> hdr_version_major h = 1 \<and> hdr_header_size h = 64 \<and>
     fs = hdr_file_size h \<and> 64 \<le> unat fs \<and> unat fs \<le> 1048576 \<and>
     1 \<le> unat (hdr_toc_count h) \<and> unat (hdr_toc_count h) \<le> 256 \<and>
     64 \<le> unat (hdr_toc_offset h) \<and> unat (hdr_toc_offset h) < unat fs \<and>
     unat (hdr_toc_bytes h) = unat (hdr_toc_count h) * 64 \<and>
     unat (hdr_toc_offset h) + unat (hdr_toc_count h) * 64 \<le> unat fs"
  unfolding header_ok_word nonzero_unat
    word_unat_eq_iff[of "hdr_toc_bytes h" "hdr_toc_count h * 64"]
  by (simp add: word_less_nat_alt word_le_nat_alt not_less not_le no_ovf add_no_ovf
      del: One_nat_def cong: conj_cong)

lemma header_file_size_check:
  "(fs < 64 \<or> fs > 1048576 \<or> fs \<noteq> hdr_file_size h) =
   (\<not> (fs = hdr_file_size h \<and> 64 \<le> unat fs \<and> unat fs \<le> 1048576))"
  by (auto simp add: word_less_nat_alt)

lemma header_toc_count_check:
  "(c = 0 \<or> c > (256::32 word)) = (\<not> (1 \<le> unat c \<and> unat c \<le> 256))"
  by (auto simp add: word_less_nat_alt unat_gt_0 Suc_le_eq)

lemma header_toc_offset_check:
  "(off < 64 \<or> off \<ge> (fs::32 word)) = (\<not> (64 \<le> unat off \<and> unat off < unat fs))"
  by (auto simp add: word_less_nat_alt word_le_nat_alt)

lemma header_toc_size_check:
  assumes "unat fs \<le> 1048576" "unat c \<le> 256" "unat off < unat fs"
  shows "(b \<noteq> c * 64 \<or> off + c * 64 > (fs::32 word)) =
     (\<not> (unat b = unat c * 64 \<and> unat off + unat c * 64 \<le> unat fs))"
  using no_ovf[OF assms(2)] add_no_ovf[OF assms(3,1,2)]
  by (auto simp add: word_less_nat_alt word_unat_eq_iff)

lemma if_chain7:
  assumes "\<not> c4 \<Longrightarrow> \<not> c5 \<Longrightarrow> \<not> c6 \<Longrightarrow> c7 = d7"
  shows "(if c1 then r1 else if c2 then r2 else if c3 then r3 else if c4 then r4
          else if c5 then r5 else if c6 then r6 else if c7 then r7 else r8) =
         (if c1 then r1 else if c2 then r2 else if c3 then r3 else if c4 then r4
          else if c5 then r5 else if c6 then r6 else if d7 then r7 else r8)"
  using assms by auto

lemma header_refines: "validate_vmprog_header_v1_0 h fs = header_first_violation h fs"
  unfolding validate_vmprog_header_v1_0_def header_first_violation_def Let_def
    header_file_size_check header_toc_count_check header_toc_offset_check
  by (rule if_chain7, rule header_toc_size_check) simp_all

text \<open>Claim C4: \<open>validate_vmprog_header_v1_0(header, file_size)\<close> returns \<open>ok\<close> exactly when
  magic, version major, header size, file-size envelope, TOC count, TOC offset and TOC byte
  size all hold; otherwise it returns the code of the first check that fails, in that order
  (\<open>header_first_violation\<close>); and whenever the multiplication by 64 is reached the count
  has been bounded, so the 32-bit product does not overflow.\<close>

theorem validate_header_spec:
  "validate_vmprog_header_v1_0 h fs = header_first_violation h fs \<and>
   (validate_vmprog_header_v1_0 h fs = ok \<longleftrightarrow>
     hdr_magic h = 0x47504D56 \<and> hdr_version_major h = 1 \<and> hdr_header_size h = 64 \<and>
     fs = hdr_file_size h \<and> 64 \<le> unat fs \<and> unat fs \<le> 1048576 \<and>
     1 \<le> unat (hdr_toc_count h) \<and> unat (hdr_toc_count h) \<le> 256 \<and>
     64 \<le> unat (hdr_toc_offset h) \<and> unat (hdr_toc_offset h) < unat fs \<and>
     unat (hdr_toc_bytes h) = unat (hdr_toc_count h) * 64 \<and>
     unat (hdr_toc_offset h) + unat (hdr_toc_count h) * 64 \<le> unat fs) \<and>
   (validate_vmprog_header_v1_0 h fs \<in> {invalid_toc_offset, invalid_toc_size, ok} \<longrightarrow>
     unat (hdr_toc_count h * 64) = unat (hdr_toc_count h) * 64)"
proof (intro conjI impI)
  show "validate_vmprog_header_v1_0 h fs = header_first_violation h fs" by (rule header_refines)
  show "validate_vmprog_header_v1_0 h fs = ok \<longleftrightarrow>
     hdr_magic h = 0x47504D56 \<and> hdr_version_major h = 1 \<and> hdr_header_size h = 64 \<and>
     fs = hdr_file_size h \<and> 64 \<le> unat fs \<and> unat fs \<le> 1048576 \<and>
     1 \<le> unat (hdr_toc_count h) \<and> unat (hdr_toc_count h) \<le> 256 \<and>
     64 \<le> unat (hdr_toc_offset h) \<and> unat (hdr_toc_offset h) < unat fs \<and>
     unat (hdr_toc_bytes h) = unat (hdr_toc_count h) * 64 \<and>
     unat (hdr_toc_offset h) + unat (hdr_toc_count h) * 64 \<le> unat fs"
    by (rule header_ok_iff)
  assume "validate_vmprog_header_v1_0 h fs \<in> {invalid_toc_offset, invalid_toc_size, ok}"
  then have "unat (hdr_toc_count h) \<le> 256"
    by (auto simp add: header_refines header_first_violation_def split: if_splits)
  then show "unat (hdr_toc_count h * 64) = unat (hdr_toc_count h) * 64" by (rule no_ovf)
qed

text \<open>Witness for C4: a valid header, one that violates magic and TOC count together
  (the earlier check wins), and a count whose product with 64 would wrap to 64.\<close>

theorem validate_header_spec_witness:
  "validate_vmprog_header_v1_0 example_header 128 = ok \<and>
   unat (hdr_toc_count example_header * 64) = unat (hdr_toc_count example_header) * 64 \<and>
   validate_vmprog_header_v1_0 (example_header\<lparr>hdr_magic := 0, hdr_toc_count := 0\<rparr>) 128 = invalid_magic \<and>
   validate_vmprog_header_v1_0 (example_header\<lparr>hdr_toc_count := 0x4000001\<rparr>) 128 = invalid_toc_count"
  using validate_header_spec[of example_header 128]
    validate_header_spec[of "example_header\<lparr>hdr_magic := 0, hdr_toc_count := 0\<rparr>" 128]
    validate_header_spec[of "example_header\<lparr>hdr_toc_count := 0x4000001\<rparr>" 128]
  by (simp add: example_header_def header_first_violation_def)

text \<open>Claim C6, as amended: a TOC entry that satisfies the checked constraints (nonzero
  type, offset in [64, file\_size), payload within the file, reserved words zero) validates
  as \<open>ok\<close> whatever its \<open>flags\<close> field holds; the validator does not read \<open>flags\<close>.\<close>

theorem toc_entry_ignores_flags:
  assumes "toc_type e \<noteq> 0" "64 \<le> unat (toc_offset e)" "unat (toc_offset e) < unat fs"
    "unat (toc_offset e) + unat (toc_size e) \<le> unat fs" "\<forall>i<4. toc_reserved e ! i = 0"
  shows "validate_vmprog_toc_entry_v1_0 (e\<lparr>toc_flags := f\<rparr>) fs = ok"
proof -
  have "unat (toc_size e) \<le> unat fs" using assms(4) by simp
  then have "unat (fs - toc_size e) = unat fs - unat (toc_size e)"
    by (simp add: unat_sub word_le_nat_alt)
  then have "\<not> toc_offset e > fs - toc_size e" using assms(4) by (simp add: word_less_nat_alt)
  moreover have "\<not> list_ex (\<lambda>i. toc_reserved e ! i \<noteq> 0) [0..<4]"
    using assms(5) by (simp add: list_ex_iff)
  ultimately show ?thesis using assms(1-3)
    by (simp add: validate_vmprog_toc_entry_v1_0_def word_less_nat_alt word_le_nat_alt not_less not_le)
qed

text \<open>Witness for C6 as amended: all flag bits set.\<close>

theorem toc_entry_ignores_flags_witness:
  "validate_vmprog_toc_entry_v1_0
     \<lparr>toc_type = 4, toc_flags = 0xFFFFFFFF, toc_offset = 128, toc_size = 64,
      toc_sha256 = replicate 32 0, toc_reserved = [0, 0, 0, 0]\<rparr> 192 = ok"
  using toc_entry_ignores_flags[of
     "\<lparr>toc_type = 4, toc_flags = 0, toc_offset = 128, toc_size = 64,
      toc_sha256 = replicate 32 0, toc_reserved = [0, 0, 0, 0]\<rparr>" 192 "0xFFFFFFFF"]
  by (simp add: nth_Cons' ) 

text \<open>Counterexample to C6 as stated: an entry with \<open>flags = 1\<close> and every other constraint
  met is accepted.\<close>

theorem toc_entry_flags_counterexample:
  "toc_flags \<lparr>toc_type = 1, toc_flags = 1, toc_offset = 64, toc_size = 0,
      toc_sha256 = replicate 32 0, toc_reserved = [0, 0, 0, 0]\<rparr> \<noteq> 0 \<and>
   validate_vmprog_toc_entry_v1_0
     \<lparr>toc_type = 1, toc_flags = 1, toc_offset = 64, toc_size = 0,
      toc_sha256 = replicate 32 0, toc_reserved = [0, 0, 0, 0]\<rparr> 128 = ok"
  by code_simp

text \<open>The bounds test of a TOC entry, \<open>offset > file_size - size\<close>, subtracts in 32 bits:
  an entry whose size exceeds the file size passes it.\<close>

lemma toc_entry_bounds_wrap:
  "validate_vmprog_toc_entry_v1_0 (mk_toc_entry type_fpga_bitstream 128 1000 h) 192 = ok"
  by code_simp

subsection \<open>Display strings\<close>

lemma copy_chars_bound:
  "copy_chars cs lim pos = (p, ws) \<Longrightarrow> pos \<le> p \<and> p \<le> max pos lim \<and> (\<forall>x\<in>set ws. fst x < lim)"
proof (induction cs arbitrary: pos p ws)
  case Nil
  then show ?case by simp
next
  case (Cons c cs)
  show ?case
  proof (cases "pos < lim")
    case True
    obtain p' ws' where r: "copy_chars cs lim (Suc pos) = (p', ws')" by (cases "copy_chars cs lim (Suc pos)")
    from Cons.prems True r have e: "p = p'" "ws = (pos, c) # ws'" by simp_all
    from Cons.IH[OF r] True e show ?thesis by auto
  next
    case False
    with Cons.prems show ?thesis by simp
  qed
qed

lemma copy_suffix_bound:
  "copy_suffix label idx lim pos k = (p, ws) \<Longrightarrow> pos \<le> p \<and> p \<le> max pos lim \<and> (\<forall>x\<in>set ws. fst x < lim)"
proof (induction k arbitrary: idx pos p ws)
  case 0
  then show ?case by simp
next
  case (Suc k)
  show ?case
  proof (cases "label ! idx \<noteq> 0 \<and> pos < lim")
    case True
    obtain p' ws' where r: "copy_suffix label (Suc idx) lim (Suc pos) k = (p', ws')"
      by (cases "copy_suffix label (Suc idx) lim (Suc pos) k")
    from Suc.prems True r have e: "p = p'" "ws = (pos, label ! idx) # ws'" by simp_all
    from Suc.IH[OF r] True e show ?thesis by auto
  next
    case False
    with Suc.prems show ?thesis by auto
  qed
qed

lemma fast_strcpy_loop_bound:
  "fast_strcpy_loop src i room = Some (j, ws) \<Longrightarrow> j \<le> i + room \<and> (\<forall>x\<in>set ws. fst x < i + room)"
proof (induction room arbitrary: i j ws)
  case 0
  then show ?case by simp
next
  case (Suc room)
  from Suc.prems have a: "i < length src" by (simp split: if_splits)
  show ?case
  proof (cases "src ! i = 0")
    case True
    with Suc.prems a show ?thesis by simp
  next
    case False
    with Suc.prems a obtain j' ws' where r: "fast_strcpy_loop src (Suc i) room = Some (j', ws')"
      by (auto split: option.splits)
    from Suc.prems a False r have e: "j = j'" "ws = (i, src ! i) # ws'" by simp_all
    from Suc.IH[OF r] e show ?thesis by auto
  qed
qed

lemma fast_strcpy_bound:
  assumes "fast_strcpy src n = Some ws" "0 < n"
  shows "ws \<noteq> [] \<and> snd (last ws) = 0 \<and> (\<forall>x\<in>set ws. fst x < n)"
proof -
  from assms obtain i w where r: "fast_strcpy_loop src 0 (n - 1) = Some (i, w)" and e: "ws = w @ [(i, 0)]"
    by (auto simp: fast_strcpy_def split: option.splits)
  from fast_strcpy_loop_bound[OF r] assms(2) e show ?thesis by auto
qed

lemma numeric_layout_bound:
  assumes lim: "1 \<le> lim"
  and s: "(if sf \<and> x1b < lim then copy_suffix label 0 lim x1b 4 else (x1b, [])) = (x1d, x2d)"
  and w: "x2 @ x2a @ x2b @ x2d @ [(x1d, 0)] = ws"
  and p0: "(if neg then (1, [(0, 45)]) else (0, [])) = (x1, x2)"
  and c1: "copy_chars d1 lim x1 = (x1a, x2a)"
  and cz: "copy_chars zs lim (Suc x1a) = (x1c, x2c)"
  and cf: "copy_chars fr lim x1c = (x1e, x2e)"
  and p2: "(if fd \<and> x1a < lim then (x1e, (x1a, 46) # x2c @ x2e) else (x1a, [])) = (x1b, x2b)"
  shows "ws \<noteq> [] \<and> snd (last ws) = 0 \<and> (\<forall>x\<in>set ws. fst x \<le> lim)"
proof -
  from p0 lim have a0: "x1 \<le> lim" "\<forall>x\<in>set x2. fst x \<le> lim" by (auto split: if_splits)
  from copy_chars_bound[OF c1] a0 have a1: "x1a \<le> lim" "\<forall>x\<in>set x2a. fst x \<le> lim" by auto
  have a2: "x1b \<le> lim \<and> (\<forall>x\<in>set x2b. fst x \<le> lim)"
  proof (cases "fd \<and> x1a < lim")
    case True
    then have "Suc x1a \<le> lim" by simp
    with copy_chars_bound[OF cz] have z: "x1c \<le> lim" "\<forall>x\<in>set x2c. fst x \<le> lim" by auto
    with copy_chars_bound[OF cf] have f: "x1e \<le> lim" "\<forall>x\<in>set x2e. fst x \<le> lim" by auto
    from p2 True have "x1b = x1e" "x2b = (x1a, 46) # x2c @ x2e" by simp_all
    with z f a1 show ?thesis by auto
  next
    case False
    with p2 have "x1b = x1a" "x2b = []" by auto
    with a1 show ?thesis by simp
  qed
  have a3: "x1d \<le> lim \<and> (\<forall>x\<in>set x2d. fst x \<le> lim)"
  proof (cases "sf \<and> x1b < lim")
    case True
    with s have "copy_suffix label 0 lim x1b 4 = (x1d, x2d)" by simp
    from copy_suffix_bound[OF this] a2 show ?thesis by auto
  next
    case False
    with s have "x1d = x1b" "x2d = []" by auto
    with a2 show ?thesis by simp
  qed
  from w[symmetric] a0 a1 a2 a3 show ?thesis by auto
qed

text \<open>With a buffer of two bytes or more every write of
  \<open>generate_parameter_value_display_string\<close> is inside the buffer and the last write is the
  terminator.\<close>

lemma display_string_in_bounds:
  assumes g: "generate_parameter_value_display_string v config n = Some ws" and n: "2 \<le> n"
  shows "ws \<noteq> [] \<and> snd (last ws) = 0 \<and> (\<forall>x\<in>set ws. fst x < n)"
proof (cases "2 \<le> param_value_label_count config")
  case True
  with g n obtain label where "fast_strcpy label n = Some ws"
    by (auto simp: generate_parameter_value_display_string_def Let_def split: if_splits)
  from fast_strcpy_bound[OF this] n show ?thesis by simp
next
  case False
  define lim where "lim = n - 1"
  have lim: "1 \<le> lim" "lim < n" using n by (simp_all add: lim_def)
  have "ws \<noteq> [] \<and> snd (last ws) = 0 \<and> (\<forall>x\<in>set ws. fst x \<le> lim)"
    using g False n
    unfolding generate_parameter_value_display_string_def Let_def lim_def[symmetric]
    apply (simp split: prod.splits)
    apply (rule numeric_layout_bound[OF lim(1)], assumption+)
    done
  with lim(2) show ?thesis by auto
qed

text \<open>With a buffer of one byte the function writes either the terminator alone, at index
  0, or the minus sign at index 0 and the terminator at index 1.\<close>

lemma copy_chars_no_room: "copy_chars cs 0 pos = (pos, [])"
  by (cases cs) simp_all

lemma display_string_one_byte:
  assumes g: "generate_parameter_value_display_string v config 1 = Some ws"
  shows "ws = [(0, 0)] \<or> ws = [(0, 0x2D), (1, 0)]"
  using g
  unfolding generate_parameter_value_display_string_def Let_def
  by (simp add: copy_chars_no_room fast_strcpy_def split: if_splits)

text \<open>Claim C3 fails on the code: with a one-byte buffer and a negative scaled value the
  minus sign is written at index 0 without a bounds test, no later loop runs, and the
  terminator is written at index 1, one past the end of the buffer. (Raw value 0 displays
  as -100 under \<open>example_parameter\<close>.)\<close>

theorem display_string_overflow:
  "generate_parameter_value_display_string 0 example_parameter 1 = Some [(0, 0x2D), (1, 0)]"
  by code_simp

subsection \<open>Package validation\<close>

lemma mk_toc_entry_sel:
  "toc_type (mk_toc_entry ty off sz h) = ty" "toc_offset (mk_toc_entry ty off sz h) = off"
  "toc_size (mk_toc_entry ty off sz h) = sz" "toc_sha256 (mk_toc_entry ty off sz h) = h"
  by (simp_all add: mk_toc_entry_def)

lemma xor_eq_0_word: "((x::u8) XOR y = 0) = (x = y)"
proof
  assume "x XOR y = 0"
  then have "(x XOR y) XOR y = y" by simp
  then show "x = y" by (simp add: xor.assoc)
qed simp

lemma secure_compare_fold:
  "(fold (\<lambda>i diff. diff OR (a ! i XOR b ! i)) xs (acc::u8) = 0) =
     (acc = 0 \<and> (\<forall>i\<in>set xs. a ! i = b ! i))"
  by (induction xs arbitrary: acc) (auto simp add: or_eq_0_iff xor_eq_0_word)

lemma secure_compare_iff: "secure_compare a b n = (\<forall>i<n. a ! i = b ! i)"
  by (auto simp add: secure_compare_def secure_compare_fold)

lemma verify_hash_iff:
  "verify_hash cr msg expected = (\<forall>i<32. crypto_blake2b_256 cr msg ! i = expected ! i)"
  by (simp add: verify_hash_def secure_compare_hash_def secure_compare_iff sha256_oneshot_def)

lemma loop_ok:
  "verify_payload_hashes_loop cr file_data fs es = Some ok \<Longrightarrow> e \<in> set es \<Longrightarrow> toc_size e \<noteq> 0 \<Longrightarrow>
     \<exists>p. read_bytes file_data (unat (toc_offset e)) (unat (toc_size e)) = Some p \<and>
         verify_hash cr p (toc_sha256 e)"
  by (induction es) (auto split: if_splits option.splits)

lemma read_bytes_Some: "read_bytes file_data off n = Some bs \<Longrightarrow> bytes_at file_data off n = bs"
  by (simp add: read_bytes_def split: if_splits)

lemma find_toc_entry_append:
  "find_toc_entry (xs @ ys) ty =
     (case find_toc_entry xs ty of Some e \<Rightarrow> Some e | None \<Rightarrow> find_toc_entry ys ty)"
  by (induction xs) auto

lemma count_toc_entries_append:
  "count_toc_entries (xs @ ys) ty = count_toc_entries xs ty + count_toc_entries ys ty"
  by (induction xs) auto

lemma validate_toc_entries_append:
  "(validate_toc_entries (xs @ ys) fs = ok) =
     (validate_toc_entries xs fs = ok \<and> validate_toc_entries ys fs = ok)"
  by (induction xs) auto

lemma validate_toc_entries_Cons:
  "(validate_toc_entries (d # ys) fs = ok) =
     (validate_vmprog_toc_entry_v1_0 d fs = ok \<and> validate_toc_entries ys fs = ok)"
  by auto

lemma loop_Cons_ok:
  "(verify_payload_hashes_loop cr file_data fs (d # ys) = Some ok) =
     ((toc_size d \<noteq> 0 \<longrightarrow> validate_vmprog_toc_entry_v1_0 d fs = ok \<and>
         (\<exists>p. read_bytes file_data (unat (toc_offset d)) (unat (toc_size d)) = Some p \<and>
              verify_hash cr p (toc_sha256 d))) \<and>
      verify_payload_hashes_loop cr file_data fs ys = Some ok)"
  by (auto split: option.splits)

lemma loop_append_ok:
  "(verify_payload_hashes_loop cr file_data fs (xs @ ys) = Some ok) =
     (verify_payload_hashes_loop cr file_data fs xs = Some ok \<and>
      verify_payload_hashes_loop cr file_data fs ys = Some ok)"
proof (induction xs)
  case Nil
  show ?case by simp
next
  case (Cons x xs)
  show ?case unfolding append_Cons loop_Cons_ok Cons.IH by blast
qed

lemma hashes_block_iff:
  "(package_hashes_block cr file_data fs h = Some ok) =
     (verify_payload_hashes_loop cr file_data fs (toc_of file_data h) = Some ok \<and>
      (is_hash_zero (hdr_sha256_package h) \<or> verify_package_sha256 cr file_data fs))"
  by (auto simp add: package_hashes_block_def verify_all_payload_hashes_def split: option.splits)

lemma validate_ok_iff:
  "(validate_vmprog_package cr file_data fs vh vs pk = Some ok) =
     (\<not> fs < 64 \<and>
      validate_vmprog_header_v1_0 (header_view (bytes_at file_data 0 64)) fs = ok \<and>
      validate_toc_entries (toc_of file_data (header_view (bytes_at file_data 0 64))) fs = ok \<and>
      (vh \<longrightarrow> package_hashes_block cr file_data fs (header_view (bytes_at file_data 0 64)) = Some ok) \<and>
      package_config_block file_data (toc_of file_data (header_view (bytes_at file_data 0 64))) = Some ok \<and>
      package_descriptor_block cr file_data (header_view (bytes_at file_data 0 64))
        (toc_of file_data (header_view (bytes_at file_data 0 64))) vs pk = Some ok)"
  by (auto simp add: validate_vmprog_package_def Let_def split: option.splits)

lemma blocks_first_entry:
  assumes "find_toc_entry pre (toc_type d) = Some e"
  shows "package_config_block file_data (pre @ d # post) = package_config_block file_data (pre @ post)"
    and "package_descriptor_block cr file_data header (pre @ d # post) vs pk =
           package_descriptor_block cr file_data header (pre @ post) vs pk"
proof -
  have f: "find_toc_entry (pre @ d # post) t = find_toc_entry (pre @ post) t" for t
    using assms by (cases "t = toc_type d") (auto simp add: find_toc_entry_append split: option.splits)
  show "package_config_block file_data (pre @ d # post) = package_config_block file_data (pre @ post)"
    unfolding package_config_block_def f by simp
  show "package_descriptor_block cr file_data header (pre @ d # post) vs pk =
           package_descriptor_block cr file_data header (pre @ post) vs pk"
    unfolding package_descriptor_block_def f by simp
qed

text \<open>Claim C5, as amended: \<open>validate_vmprog_package\<close> does not reject a TOC with two or
  more \<open>config\<close>, \<open>signed_descriptor\<close> or \<open>signature\<close> entries. Let \<open>d\<close> be a TOC entry whose
  type already occurs in an earlier entry. Then the package is accepted exactly when the
  header validates, \<open>d\<close> passes the validation every entry gets (\<open>validate_vmprog_toc_entry_v1_0\<close>
  and, under \<open>verify_hashes\<close>, the hash of its payload), and every other check of the function
  succeeds on the TOC without \<open>d\<close>: the entry validation and payload hashes of the other
  entries, the package hash, and the config, descriptor and signature checks, which look a
  type up with \<open>find_toc_entry\<close> and so see the first entry of the type only. Duplicates are
  visible to \<open>count_toc_entries\<close>, which counts \<open>d\<close> as one more entry of its type.\<close>

theorem duplicate_entries_ignored:
  assumes toc: "toc_of file_data (header_view (bytes_at file_data 0 64)) = pre @ d # post"
    and dup: "find_toc_entry pre (toc_type d) = Some e"
  shows "(validate_vmprog_package cr file_data fs vh vs pk = Some ok) =
     (\<not> fs < 64 \<and>
      validate_vmprog_header_v1_0 (header_view (bytes_at file_data 0 64)) fs = ok \<and>
      validate_vmprog_toc_entry_v1_0 d fs = ok \<and>
      validate_toc_entries (pre @ post) fs = ok \<and>
      (vh \<longrightarrow>
         (toc_size d \<noteq> 0 \<longrightarrow>
            (\<exists>p. read_bytes file_data (unat (toc_offset d)) (unat (toc_size d)) = Some p \<and>
                 verify_hash cr p (toc_sha256 d))) \<and>
         verify_payload_hashes_loop cr file_data fs (pre @ post) = Some ok \<and>
         (is_hash_zero (hdr_sha256_package (header_view (bytes_at file_data 0 64))) \<or>
          verify_package_sha256 cr file_data fs)) \<and>
      package_config_block file_data (pre @ post) = Some ok \<and>
      package_descriptor_block cr file_data (header_view (bytes_at file_data 0 64))
        (pre @ post) vs pk = Some ok) \<and>
     count_toc_entries (toc_of file_data (header_view (bytes_at file_data 0 64))) (toc_type d) =
       count_toc_entries (pre @ post) (toc_type d) + 1"
proof
  show "(validate_vmprog_package cr file_data fs vh vs pk = Some ok) =
     (\<not> fs < 64 \<and>
      validate_vmprog_header_v1_0 (header_view (bytes_at file_data 0 64)) fs = ok \<and>
      validate_vmprog_toc_entry_v1_0 d fs = ok \<and>
      validate_toc_entries (pre @ post) fs = ok \<and>
      (vh \<longrightarrow>
         (toc_size d \<noteq> 0 \<longrightarrow>
            (\<exists>p. read_bytes file_data (unat (toc_offset d)) (unat (toc_size d)) = Some p \<and>
                 verify_hash cr p (toc_sha256 d))) \<and>
         verify_payload_hashes_loop cr file_data fs (pre @ post) = Some ok \<and>
         (is_hash_zero (hdr_sha256_package (header_view (bytes_at file_data 0 64))) \<or>
          verify_package_sha256 cr file_data fs)) \<and>
      package_config_block file_data (pre @ post) = Some ok \<and>
      package_descriptor_block cr file_data (header_view (bytes_at file_data 0 64))
        (pre @ post) vs pk = Some ok)"
    unfolding validate_ok_iff hashes_block_iff toc blocks_first_entry[OF dup]
      validate_toc_entries_append validate_toc_entries_Cons loop_append_ok loop_Cons_ok
    by blast
  show "count_toc_entries (toc_of file_data (header_view (bytes_at file_data 0 64))) (toc_type d) =
       count_toc_entries (pre @ post) (toc_type d) + 1"
    unfolding toc by (simp add: count_toc_entries_append)
qed

text \<open>Claim C1 fails on the buffer-based validator: the signature check is nested in the
  block that runs only when a \<open>signed_descriptor\<close> entry of size 332 is found. The 128-byte
  example has the \<open>signed\<close> flag set and neither a descriptor nor a signature entry, and
  with \<open>verify_signature = true\<close> it is accepted, for every implementation of the primitives
  and every key.\<close>

theorem signed_package_without_descriptor_accepted:
  "is_package_signed (header_view (bytes_at signed_without_descriptor 0 64)) \<and>
   find_toc_entry (toc_of signed_without_descriptor (header_view (bytes_at signed_without_descriptor 0 64)))
     type_signed_descriptor = None \<and>
   find_toc_entry (toc_of signed_without_descriptor (header_view (bytes_at signed_without_descriptor 0 64)))
     type_signature = None \<and>
   validate_vmprog_package cr signed_without_descriptor 128 True True (Some key) = Some ok"
  by code_simp


subsection \<open>The signed example file\<close>

lemma slice_pre: "off + n \<le> length a \<Longrightarrow> bytes_at (a @ b) off n = bytes_at a off n"
  by (simp add: bytes_at_def)

lemma slice_post: "length a \<le> off \<Longrightarrow> bytes_at (a @ b) off n = bytes_at b (off - length a) n"
  by (simp add: bytes_at_def)

lemma slice_all: "length a = n \<Longrightarrow> bytes_at a 0 n = a"
  by (simp add: bytes_at_def)

lemma le16_pre: "off + 2 \<le> length a \<Longrightarrow> le16 (a @ b) off = le16 a off"
  by (simp add: le16_def nth_append)

lemma le32_pre: "off + 4 \<le> length a \<Longrightarrow> le32 (a @ b) off = le32 a off"
  by (simp add: le32_def nth_append)

lemma le32_post: "length a \<le> off \<Longrightarrow> le32 (a @ b) off = le32 b (off - length a)"
  by (simp add: le32_def nth_append Suc_diff_le)

lemma nth_post: "length a \<le> off \<Longrightarrow> (a @ b) ! off = b ! (off - length a)"
  by (simp add: nth_append)

lemma head_len: "length example_config_head = 506"
  by (simp add: example_config_head_def bytes_le16_def bytes_le32_def)

lemma cfg_len: "length example_config_bytes = 7372"
  by (simp add: example_config_bytes_def head_len)

lemma head_fields:
  "le16 example_config_head 502 = 0" "le16 example_config_head 504 = 0"
  "le16 example_config_head 70 = 1" "le16 example_config_head 72 = 0"
  "le16 example_config_head 74 = 2" "le16 example_config_head 76 = 0"
  "le32 example_config_head 78 = 1" "le32 example_config_head 82 = 1"
  by code_simp+

lemma head_strings:
  "is_string_terminated (bytes_at example_config_head 0 64) 64"
  "is_string_terminated (bytes_at example_config_head 86 32) 32"
  "is_string_terminated (bytes_at example_config_head 118 64) 64"
  "is_string_terminated (bytes_at example_config_head 182 32) 32"
  "is_string_terminated (bytes_at example_config_head 214 32) 32"
  "is_string_terminated (bytes_at example_config_head 246 128) 128"
  "bytes_at example_config_head 0 64 ! 0 \<noteq> 0"
  "bytes_at example_config_head 86 32 ! 0 \<noteq> 0"
  by code_simp+

lemma cfg_reserved: "bytes_at example_config_bytes 7370 2 = [0, 0]"
  by (simp add: example_config_bytes_def slice_post head_len slice_all)

lemma cfg_valid:
  "validate_vmprog_program_config_v1_0 (program_config_view example_config_bytes) = ok"
proof -
  have s: "bytes_at example_config_bytes off n = bytes_at example_config_head off n"
    if "off + n \<le> 506" for off n
    using that by (simp add: example_config_bytes_def slice_pre head_len)
  have l16: "le16 example_config_bytes off = le16 example_config_head off"
    if "off + 2 \<le> 506" for off
    using that by (simp add: example_config_bytes_def le16_pre head_len)
  have l32: "le32 example_config_bytes off = le32 example_config_head off"
    if "off + 4 \<le> 506" for off
    using that by (simp add: example_config_bytes_def le32_pre head_len)
  show ?thesis
    by (simp add: validate_vmprog_program_config_v1_0_def program_config_view_def
        s l16 l32 cfg_reserved head_fields head_strings)
qed


lemma desc_len: "length d = 32 \<Longrightarrow> length (example_descriptor_bytes d) = 332"
  by (simp add: example_descriptor_bytes_def bytes_le32_def)

lemma toc_len: "length h = 32 \<Longrightarrow> length (toc_entry_bytes (mk_toc_entry ty off sz h)) = 64"
  by (simp add: toc_entry_bytes_def mk_toc_entry_def bytes_le32_def)

lemma le32_values:
  "bytes_le32 0 = [0, 0, 0, 0]" "bytes_le32 1 = [1, 0, 0, 0]" "bytes_le32 2 = [2, 0, 0, 0]"
  "bytes_le32 3 = [3, 0, 0, 0]" "bytes_le32 256 = [0, 1, 0, 0]"
  "bytes_le32 7372 = [0xCC, 0x1C, 0, 0]" "bytes_le32 7628 = [0xCC, 0x1D, 0, 0]"
  "bytes_le32 332 = [0x4C, 1, 0, 0]" "bytes_le32 7960 = [0x18, 0x1F, 0, 0]"
  "bytes_le32 64 = [0x40, 0, 0, 0]"
  by code_simp+

lemma upt_4: "[0..<4] = [0, 1, 2, 3]" by code_simp
lemma upt_3: "[0..<3] = [0, 1, 2]" by code_simp

lemma toc_view_generic:
  assumes "length p = 16" "length h = 32"
  shows "toc_entry_view (p @ h @ replicate 16 0) =
     \<lparr>toc_type = le32 p 0, toc_flags = le32 p 4, toc_offset = le32 p 8, toc_size = le32 p 12,
      toc_sha256 = h, toc_reserved = [0, 0, 0, 0]\<rparr>"
proof -
  have z: "le32 (replicate 16 0) k = 0" if "k + 4 \<le> 16" for k
    using that by (simp add: le32_def)
  have r: "le32 (p @ h @ replicate 16 0) (48 + k) = 0" if "k + 4 \<le> 16" for k
    using that assms by (simp add: le32_post z)
  have "bytes_at (p @ h @ replicate 16 0) 16 32 = h"
    using assms by (simp add: slice_post slice_pre slice_all)
  then show ?thesis using assms r[of 0] r[of 4] r[of 8] r[of 12]
    by (simp add: toc_entry_view_def le32_pre upt_4)
qed


lemma le32_roundtrip: "le32 (bytes_le32 w @ rest) 0 = w"
  unfolding le32_def bytes_le32_def
  apply simp
  apply (rule bit_word_eqI)
  apply (auto simp add: bit_simps)
  subgoal for n by (cases "n < 24") simp_all
  done

lemma le32_at:
  assumes "length a = off"
  shows "le32 (a @ bytes_le32 w @ rest) off = w"
  using assms le32_roundtrip[of w rest] by (simp add: le32_post)

lemma toc_roundtrip_gen:
  assumes "length h = 32"
  shows "toc_entry_view (toc_entry_bytes (mk_toc_entry ty off sz h)) = mk_toc_entry ty off sz h"
proof -
  let ?p = "bytes_le32 ty @ bytes_le32 0 @ bytes_le32 off @ bytes_le32 sz"
  have z: "concat (map bytes_le32 [0, 0, 0, 0]) = replicate 16 0" by code_simp
  have "toc_entry_bytes (mk_toc_entry ty off sz h) = ?p @ h @ concat (map bytes_le32 [0, 0, 0, 0])"
    by (simp add: toc_entry_bytes_def mk_toc_entry_def)
  then have b: "toc_entry_bytes (mk_toc_entry ty off sz h) = ?p @ h @ replicate 16 0"
    by (simp only: z)
  have l: "length ?p = 16" by (simp add: bytes_le32_def)
  have v: "le32 ?p 0 = ty" "le32 ?p 4 = 0" "le32 ?p 8 = off" "le32 ?p 12 = sz"
    using le32_at[of "[]" 0 ty "bytes_le32 0 @ bytes_le32 off @ bytes_le32 sz"]
      le32_at[of "bytes_le32 ty" 4 0 "bytes_le32 off @ bytes_le32 sz"]
      le32_at[of "bytes_le32 ty @ bytes_le32 0" 8 off "bytes_le32 sz"]
      le32_at[of "bytes_le32 ty @ bytes_le32 0 @ bytes_le32 off" 12 sz "[]"]
    by (simp_all add: bytes_le32_def)
  show ?thesis
    unfolding b by (simp only: toc_view_generic[OF l assms] v mk_toc_entry_def)
qed

lemma hdr_len: "length (header_bytes (example_header\<lparr>hdr_file_size := 8024, hdr_flags := 1,
     hdr_toc_bytes := 192, hdr_toc_count := 3\<rparr>)) = 64"
  by code_simp

lemma hdr_view: "header_view (header_bytes (example_header\<lparr>hdr_file_size := 8024, hdr_flags := 1,
     hdr_toc_bytes := 192, hdr_toc_count := 3\<rparr>)) =
   example_header\<lparr>hdr_file_size := 8024, hdr_flags := 1, hdr_toc_bytes := 192, hdr_toc_count := 3\<rparr>"
  by code_simp

lemma hdr_valid: "validate_vmprog_header_v1_0 (example_header\<lparr>hdr_file_size := 8024, hdr_flags := 1,
     hdr_toc_bytes := 192, hdr_toc_count := 3\<rparr>) 8024 = ok"
  by code_simp

lemma hdr_facts:
  "is_package_signed (example_header\<lparr>hdr_file_size := 8024, hdr_flags := 1,
     hdr_toc_bytes := 192, hdr_toc_count := 3\<rparr>)"
  "is_hash_zero (hdr_sha256_package (example_header\<lparr>hdr_file_size := 8024, hdr_flags := 1,
     hdr_toc_bytes := 192, hdr_toc_count := 3\<rparr>))"
  "unat (hdr_toc_offset (example_header\<lparr>hdr_file_size := 8024, hdr_flags := 1,
     hdr_toc_bytes := 192, hdr_toc_count := 3\<rparr>)) = 64"
  "unat (hdr_toc_count (example_header\<lparr>hdr_file_size := 8024, hdr_flags := 1,
     hdr_toc_bytes := 192, hdr_toc_count := 3\<rparr>)) = 3"
  by code_simp+

lemma toc_valid:
  "validate_vmprog_toc_entry_v1_0 (mk_toc_entry 1 256 7372 h) 8024 = ok"
  "validate_vmprog_toc_entry_v1_0 (mk_toc_entry 2 7628 332 h) 8024 = ok"
  "validate_vmprog_toc_entry_v1_0 (mk_toc_entry 3 7960 64 h) 8024 = ok"
  by code_simp+

lemma desc_view:
  assumes "length d = 32"
  shows "signed_descriptor_view (example_descriptor_bytes d) =
           (signed_descriptor_view (example_descriptor_bytes (replicate 32 0)))
             \<lparr>desc_config_sha256 := d\<rparr>"
  using assms
  by (simp add: signed_descriptor_view_def example_descriptor_bytes_def slice_post slice_pre
      slice_all le32_post nth_post)

lemma desc_zero_valid:
  "validate_vmprog_signed_descriptor_v1_0
     (signed_descriptor_view (example_descriptor_bytes (replicate 32 0))) = ok"
  by code_simp

lemma desc_valid:
  assumes "length d = 32"
  shows "validate_vmprog_signed_descriptor_v1_0
           (signed_descriptor_view (example_descriptor_bytes d)) = ok"
proof -
  let ?z = "signed_descriptor_view (example_descriptor_bytes (replicate 32 0))"
  have "validate_vmprog_signed_descriptor_v1_0 (?z\<lparr>desc_config_sha256 := d\<rparr>) =
        validate_vmprog_signed_descriptor_v1_0 ?z"
    by (simp add: validate_vmprog_signed_descriptor_v1_0_def)
  then show ?thesis by (simp only: desc_view[OF assms] desc_zero_valid)
qed

lemma desc_sha: "length d = 32 \<Longrightarrow>
   desc_config_sha256 (signed_descriptor_view (example_descriptor_bytes d)) = d"
  by (simp add: signed_descriptor_view_def example_descriptor_bytes_def slice_pre slice_all)

lemma word_facts:
  "\<not> (8024::32 word) < 64" "unat (256::32 word) = 256" "unat (7372::32 word) = 7372"
  "unat (7628::32 word) = 7628" "unat (332::32 word) = 332" "unat (7960::32 word) = 7960"
  "unat (64::32 word) = 64" "(7372::32 word) \<noteq> 0" "(332::32 word) \<noteq> 0" "(64::32 word) \<noteq> 0"
  "(1::32 word) \<noteq> 2" "(1::32 word) \<noteq> 3" "(2::32 word) \<noteq> 3" "(2::32 word) \<noteq> 1"
  "(3::32 word) \<noteq> 1" "(3::32 word) \<noteq> 2"
  by simp_all


lemma signed_package_layout:
  assumes H: "\<And>m. length (crypto_blake2b_256 cr m) = 32"
    and d: "length d = 32" and s: "length sg = 64"
  shows "header_view (bytes_at (signed_package cr d sg) 0 64) =
           example_header\<lparr>hdr_file_size := 8024, hdr_flags := 1, hdr_toc_bytes := 192,
                               hdr_toc_count := 3\<rparr>"
    and "toc_of (signed_package cr d sg)
           (example_header\<lparr>hdr_file_size := 8024, hdr_flags := 1, hdr_toc_bytes := 192,
                               hdr_toc_count := 3\<rparr>) =
         [mk_toc_entry 1 256 7372 (crypto_blake2b_256 cr example_config_bytes),
          mk_toc_entry 2 7628 332 (crypto_blake2b_256 cr (example_descriptor_bytes d)),
          mk_toc_entry 3 7960 64 (crypto_blake2b_256 cr sg)]"
    and "read_bytes (signed_package cr d sg) 256 7372 = Some example_config_bytes"
    and "read_bytes (signed_package cr d sg) 7628 332 = Some (example_descriptor_bytes d)"
    and "read_bytes (signed_package cr d sg) 7960 64 = Some sg"
proof -
  define hdr where "hdr = example_header\<lparr>hdr_file_size := 8024, hdr_flags := 1,
     hdr_toc_bytes := 192, hdr_toc_count := 3\<rparr>"
  define cfg where "cfg = example_config_bytes"
  define desc where "desc = example_descriptor_bytes d"
  define e1 where "e1 = mk_toc_entry 1 256 7372 (crypto_blake2b_256 cr cfg)"
  define e2 where "e2 = mk_toc_entry 2 7628 332 (crypto_blake2b_256 cr desc)"
  define e3 where "e3 = mk_toc_entry 3 7960 64 (crypto_blake2b_256 cr sg)"
  define HB where "HB = header_bytes hdr"
  define T1 where "T1 = toc_entry_bytes e1"
  define T2 where "T2 = toc_entry_bytes e2"
  define T3 where "T3 = toc_entry_bytes e3"
  define pkg where "pkg = signed_package cr d sg"
  have pkg: "pkg = HB @ T1 @ T2 @ T3 @ cfg @ desc @ sg"
    by (simp add: pkg_def signed_package_def HB_def T1_def T2_def T3_def e1_def e2_def e3_def
        hdr_def cfg_def desc_def)
  have len: "length HB = 64" "length T1 = 64" "length T2 = 64" "length T3 = 64"
    "length cfg = 7372" "length desc = 332"
    by (simp_all add: HB_def hdr_def hdr_len T1_def T2_def T3_def e1_def e2_def e3_def toc_len H
        cfg_def cfg_len desc_def desc_len d)
  have sl: "bytes_at pkg 0 64 = HB" "bytes_at pkg 64 64 = T1" "bytes_at pkg 128 64 = T2"
    "bytes_at pkg 192 64 = T3"
    by (simp_all add: pkg len slice_pre slice_post slice_all)
  have rd: "read_bytes pkg 256 7372 = Some cfg" "read_bytes pkg 7628 332 = Some desc"
    "read_bytes pkg 7960 64 = Some sg"
    by (simp_all add: read_bytes_def pkg len s slice_pre slice_post slice_all)
  have hv: "header_view HB = hdr" by (simp add: HB_def hdr_def hdr_view)
  have hf: "unat (hdr_toc_offset hdr) = 64" "unat (hdr_toc_count hdr) = 3"
    by (simp_all only: hdr_def hdr_facts)
  have tv: "toc_entry_view T1 = e1" "toc_entry_view T2 = e2" "toc_entry_view T3 = e3"
    by (simp_all add: T1_def T2_def T3_def e1_def e2_def e3_def toc_roundtrip_gen H)
  have toc: "toc_of pkg hdr = [e1, e2, e3]"
    by (simp add: toc_of_def hf upt_3 sl tv)
  show "header_view (bytes_at (signed_package cr d sg) 0 64) =
           example_header\<lparr>hdr_file_size := 8024, hdr_flags := 1, hdr_toc_bytes := 192,
                               hdr_toc_count := 3\<rparr>"
    using sl(1) hv by (simp add: pkg_def hdr_def)
  show "toc_of (signed_package cr d sg)
           (example_header\<lparr>hdr_file_size := 8024, hdr_flags := 1, hdr_toc_bytes := 192,
                               hdr_toc_count := 3\<rparr>) =
         [mk_toc_entry 1 256 7372 (crypto_blake2b_256 cr example_config_bytes),
          mk_toc_entry 2 7628 332 (crypto_blake2b_256 cr (example_descriptor_bytes d)),
          mk_toc_entry 3 7960 64 (crypto_blake2b_256 cr sg)]"
    using toc by (simp only: pkg_def hdr_def e1_def e2_def e3_def cfg_def desc_def)
  show "read_bytes (signed_package cr d sg) 256 7372 = Some example_config_bytes"
    "read_bytes (signed_package cr d sg) 7628 332 = Some (example_descriptor_bytes d)"
    "read_bytes (signed_package cr d sg) 7960 64 = Some sg"
    using rd by (simp_all only: pkg_def cfg_def desc_def)
qed

text \<open>For every implementation of the primitives with 32-byte digests, every 32-byte value
  \<open>d\<close> in the descriptor's \<open>config_sha256\<close> field and every signature that the
  implementation accepts for the descriptor, the signed example file is accepted with hash
  and signature verification switched on.\<close>

lemma signed_package_accepted:
  assumes H: "\<And>m. length (crypto_blake2b_256 cr m) = 32"
    and d: "length d = 32" and s: "length sg = 64"
    and v: "crypto_ed25519_check cr sg key (example_descriptor_bytes d)"
  shows "validate_vmprog_package cr (signed_package cr d sg) 8024 True True (Some key) = Some ok"
proof -
  define hdr where "hdr = example_header\<lparr>hdr_file_size := 8024, hdr_flags := 1,
     hdr_toc_bytes := 192, hdr_toc_count := 3\<rparr>"
  define e1 where "e1 = mk_toc_entry 1 256 7372 (crypto_blake2b_256 cr example_config_bytes)"
  define e2 where
    "e2 = mk_toc_entry 2 7628 332 (crypto_blake2b_256 cr (example_descriptor_bytes d))"
  define e3 where "e3 = mk_toc_entry 3 7960 64 (crypto_blake2b_256 cr sg)"
  define pkg where "pkg = signed_package cr d sg"
  note lay = signed_package_layout[OF H d s, folded hdr_def e1_def e2_def e3_def pkg_def]
  have hok: "validate_vmprog_header_v1_0 hdr 8024 = ok" by (simp add: hdr_def hdr_valid)
  have hf: "is_package_signed hdr" "is_hash_zero (hdr_sha256_package hdr)"
    by (simp_all only: hdr_def hdr_facts)
  have tok: "validate_vmprog_toc_entry_v1_0 e1 8024 = ok" "validate_vmprog_toc_entry_v1_0 e2 8024 = ok"
    "validate_vmprog_toc_entry_v1_0 e3 8024 = ok"
    by (simp_all add: e1_def e2_def e3_def toc_valid)
  have sel: "toc_type e1 = 1" "toc_type e2 = 2" "toc_type e3 = 3"
    "toc_offset e1 = 256" "toc_offset e2 = 7628" "toc_offset e3 = 7960"
    "toc_size e1 = 7372" "toc_size e2 = 332" "toc_size e3 = 64"
    "toc_sha256 e1 = crypto_blake2b_256 cr example_config_bytes"
    "toc_sha256 e2 = crypto_blake2b_256 cr (example_descriptor_bytes d)"
    "toc_sha256 e3 = crypto_blake2b_256 cr sg"
    by (simp_all add: e1_def e2_def e3_def mk_toc_entry_sel)
  have hb: "package_hashes_block cr pkg 8024 hdr = Some ok"
    by (simp add: package_hashes_block_def verify_all_payload_hashes_def lay sel tok
        word_facts verify_hash_iff hf)
  have cb: "package_config_block pkg [e1, e2, e3] = Some ok"
    by (simp add: package_config_block_def sel lay word_facts cfg_valid)
  have db: "package_descriptor_block cr pkg hdr [e1, e2, e3] True (Some key) = Some ok"
    by (simp add: package_descriptor_block_def sel lay word_facts desc_valid d hf
        verify_ed25519_signature_def ed25519_verify_def v)
  show ?thesis
    unfolding pkg_def[symmetric]
    by (simp add: validate_vmprog_package_def Let_def lay hok tok hb cb db word_facts)
qed

lemma example_digest_length: "length (crypto_blake2b_256 example_crypto m) = 32"
  by (simp add: example_crypto_def example_digest_def bytes_le32_def)

lemma example_signature_length: "length (example_signature pub msg) = 64"
  by (simp add: example_signature_def example_digest_def bytes_le32_def)

lemma mismatched_accepted:
  "validate_vmprog_package example_crypto mismatched_config_package 8024 True True
     (Some vmprog_public_key_0) = Some ok"
  unfolding mismatched_config_package_def
  by (rule signed_package_accepted)
     (simp_all add: example_digest_length example_signature_length, simp add: example_crypto_def)

lemma mismatched_layout:
  "header_view (bytes_at mismatched_config_package 0 64) =
     example_header\<lparr>hdr_file_size := 8024, hdr_flags := 1, hdr_toc_bytes := 192,
                         hdr_toc_count := 3\<rparr>"
  "toc_of mismatched_config_package
     (example_header\<lparr>hdr_file_size := 8024, hdr_flags := 1, hdr_toc_bytes := 192,
                         hdr_toc_count := 3\<rparr>) =
   [mk_toc_entry 1 256 7372 (example_digest example_config_bytes),
    mk_toc_entry 2 7628 332 (example_digest (example_descriptor_bytes (replicate 32 0x11))),
    mk_toc_entry 3 7960 64 (example_digest
      (example_signature vmprog_public_key_0 (example_descriptor_bytes (replicate 32 0x11))))]"
  "read_bytes mismatched_config_package 256 7372 = Some example_config_bytes"
  "read_bytes mismatched_config_package 7628 332 =
     Some (example_descriptor_bytes (replicate 32 0x11))"
  using signed_package_layout[of example_crypto "replicate 32 0x11"
      "example_signature vmprog_public_key_0 (example_descriptor_bytes (replicate 32 0x11))",
      OF example_digest_length _ example_signature_length]
  by (simp_all add: mismatched_config_package_def) (simp_all add: example_crypto_def)

lemma example_config_digest_hd: "hd (example_digest example_config_bytes) = 0xCC"
  by (simp add: example_digest_def cfg_len le32_values)

lemma mismatched_differs:
  "replicate 32 0x11 \<noteq> crypto_blake2b_256 example_crypto example_config_bytes"
proof
  assume "replicate 32 0x11 = crypto_blake2b_256 example_crypto example_config_bytes"
  then have "hd (replicate 32 (0x11::u8)) = hd (example_digest example_config_bytes)"
    by (simp add: example_crypto_def)
  then show False by (simp add: example_config_digest_hd)
qed

text \<open>Claim C2, as amended: for every package that \<open>validate_vmprog_package\<close> accepts with
  \<open>verify_hashes = true\<close> (all its reads falling inside the caller's buffer), the \<open>sha256\<close>
  field of every TOC entry with a nonzero size, in particular of a \<open>config\<close> entry of size
  7372 and of a \<open>signed_descriptor\<close> entry of size 332, equals in its 32 bytes the hash of the
  \<open>size\<close> bytes that the buffer holds at the entry's \<open>offset\<close>. The descriptor's
  \<open>config_sha256\<close> is not constrained: for every hash primitive with 32-byte digests, every
  32-byte value \<open>d\<close> and every signature that the Ed25519 primitive accepts for the
  descriptor, the signed example file, which has a \<open>config\<close> entry of size 7372 and a
  \<open>signed_descriptor\<close> entry of size 332 whose \<open>config_sha256\<close> is \<open>d\<close>, is accepted with
  \<open>verify_hashes = true\<close> and \<open>verify_signature = true\<close>.\<close>

theorem accepted_package_payload_hashes:
  "(validate_vmprog_package cr file_data fs True vs pk = Some ok \<longrightarrow>
      (\<forall>e\<in>set (toc_of file_data (header_view (bytes_at file_data 0 64))). toc_size e \<noteq> 0 \<longrightarrow>
         (\<forall>i<32. crypto_blake2b_256 cr
                    (bytes_at file_data (unat (toc_offset e)) (unat (toc_size e))) ! i =
                  toc_sha256 e ! i))) \<and>
   ((\<forall>m. length (crypto_blake2b_256 cr m) = 32) \<and> length d = 32 \<and> length sg = 64 \<and>
    crypto_ed25519_check cr sg key (example_descriptor_bytes d) \<longrightarrow>
      validate_vmprog_package cr (signed_package cr d sg) 8024 True True (Some key) = Some ok \<and>
      map_option (\<lambda>e. (toc_offset e, toc_size e))
        (find_toc_entry
           (toc_of (signed_package cr d sg) (header_view (bytes_at (signed_package cr d sg) 0 64)))
           type_config) = Some (256, 7372) \<and>
      map_option (\<lambda>e. (toc_offset e, toc_size e))
        (find_toc_entry
           (toc_of (signed_package cr d sg) (header_view (bytes_at (signed_package cr d sg) 0 64)))
           type_signed_descriptor) = Some (7628, 332) \<and>
      desc_config_sha256 (signed_descriptor_view (bytes_at (signed_package cr d sg) 7628 332)) = d)"
proof (intro conjI impI ballI allI)
  fix e and i :: nat
  assume a: "validate_vmprog_package cr file_data fs True vs pk = Some ok"
    and e: "e \<in> set (toc_of file_data (header_view (bytes_at file_data 0 64)))"
    and s: "toc_size e \<noteq> 0" and i: "i < 32"
  from a have "verify_payload_hashes_loop cr file_data fs
      (toc_of file_data (header_view (bytes_at file_data 0 64))) = Some ok"
    unfolding validate_ok_iff hashes_block_iff by blast
  from loop_ok[OF this e s] obtain p where
    p: "read_bytes file_data (unat (toc_offset e)) (unat (toc_size e)) = Some p"
    and v: "verify_hash cr p (toc_sha256 e)" by blast
  from v i show "crypto_blake2b_256 cr
      (bytes_at file_data (unat (toc_offset e)) (unat (toc_size e))) ! i = toc_sha256 e ! i"
    unfolding read_bytes_Some[OF p] by (simp add: verify_hash_iff)
next
  assume h: "(\<forall>m. length (crypto_blake2b_256 cr m) = 32) \<and> length d = 32 \<and> length sg = 64 \<and>
    crypto_ed25519_check cr sg key (example_descriptor_bytes d)"
  then have H: "\<And>m. length (crypto_blake2b_256 cr m) = 32" and d: "length d = 32"
    and s: "length sg = 64" and v: "crypto_ed25519_check cr sg key (example_descriptor_bytes d)"
    by blast+
  note lay = signed_package_layout[OF H d s]
  show "validate_vmprog_package cr (signed_package cr d sg) 8024 True True (Some key) = Some ok"
    by (rule signed_package_accepted[OF H d s v])
  show "map_option (\<lambda>e. (toc_offset e, toc_size e))
        (find_toc_entry
           (toc_of (signed_package cr d sg) (header_view (bytes_at (signed_package cr d sg) 0 64)))
           type_config) = Some (256, 7372)"
    by (simp add: lay mk_toc_entry_sel)
  show "map_option (\<lambda>e. (toc_offset e, toc_size e))
        (find_toc_entry
           (toc_of (signed_package cr d sg) (header_view (bytes_at (signed_package cr d sg) 0 64)))
           type_signed_descriptor) = Some (7628, 332)"
    by (simp add: lay mk_toc_entry_sel)
  show "desc_config_sha256 (signed_descriptor_view (bytes_at (signed_package cr d sg) 7628 332)) = d"
    by (simp only: read_bytes_Some[OF lay(4)] desc_sha[OF d])
qed

text \<open>Claim C2 fails on the code. Counterexample: the signed example file is accepted with
  \<open>verify_hashes\<close> and \<open>verify_signature\<close> set, its first \<open>config\<close> entry has size 7372 and
  its first \<open>signed_descriptor\<close> entry size 332, and the \<open>config_sha256\<close> of the stored
  descriptor (thirty-two bytes \<open>0x11\<close>) is not the digest of the stored config payload.
  \<open>validate_vmprog_package\<close> never reads \<open>config_sha256\<close>.\<close>

theorem config_hash_counterexample:
  "validate_vmprog_package example_crypto mismatched_config_package 8024 True True
     (Some vmprog_public_key_0) = Some ok \<and>
   map_option (\<lambda>e. (toc_offset e, toc_size e))
     (find_toc_entry
        (toc_of mismatched_config_package (header_view (bytes_at mismatched_config_package 0 64)))
        type_config) = Some (256, 7372) \<and>
   map_option (\<lambda>e. (toc_offset e, toc_size e))
     (find_toc_entry
        (toc_of mismatched_config_package (header_view (bytes_at mismatched_config_package 0 64)))
        type_signed_descriptor) = Some (7628, 332) \<and>
   desc_config_sha256 (signed_descriptor_view (bytes_at mismatched_config_package 7628 332)) \<noteq>
     crypto_blake2b_256 example_crypto (bytes_at mismatched_config_package 256 7372)"
proof (intro conjI)
  show "validate_vmprog_package example_crypto mismatched_config_package 8024 True True
     (Some vmprog_public_key_0) = Some ok"
    by (rule mismatched_accepted)
  show "map_option (\<lambda>e. (toc_offset e, toc_size e))
     (find_toc_entry
        (toc_of mismatched_config_package (header_view (bytes_at mismatched_config_package 0 64)))
        type_config) = Some (256, 7372)"
    by (simp add: mismatched_layout mk_toc_entry_sel)
  show "map_option (\<lambda>e. (toc_offset e, toc_size e))
     (find_toc_entry
        (toc_of mismatched_config_package (header_view (bytes_at mismatched_config_package 0 64)))
        type_signed_descriptor) = Some (7628, 332)"
    by (simp add: mismatched_layout mk_toc_entry_sel)
  show "desc_config_sha256 (signed_descriptor_view (bytes_at mismatched_config_package 7628 332)) \<noteq>
     crypto_blake2b_256 example_crypto (bytes_at mismatched_config_package 256 7372)"
    by (simp only: read_bytes_Some[OF mismatched_layout(3)] read_bytes_Some[OF mismatched_layout(4)])
       (simp add: desc_sha mismatched_differs)
qed

text \<open>Witness for C2 as amended: the signed example file whose descriptor carries
  thirty-two bytes \<open>0x11\<close>, its \<open>config\<close> entry, and the stand-in primitives.\<close>

theorem accepted_package_payload_hashes_witness:
  "validate_vmprog_package example_crypto mismatched_config_package 8024 True True
     (Some vmprog_public_key_0) = Some ok \<and>
   mk_toc_entry type_config 256 7372 (example_digest example_config_bytes)
     \<in> set (toc_of mismatched_config_package
               (header_view (bytes_at mismatched_config_package 0 64))) \<and>
   map (\<lambda>i. example_digest (bytes_at mismatched_config_package 256 7372) ! i) [0..<32] =
     map (\<lambda>i. example_digest example_config_bytes ! i) [0..<32] \<and>
   (\<forall>m. length (crypto_blake2b_256 example_crypto m) = 32) \<and>
   crypto_ed25519_check example_crypto
     (example_signature vmprog_public_key_0 (example_descriptor_bytes (replicate 32 0x11)))
     vmprog_public_key_0 (example_descriptor_bytes (replicate 32 0x11)) \<and>
   desc_config_sha256
     (signed_descriptor_view (bytes_at mismatched_config_package 7628 332)) = replicate 32 0x11"
proof -
  note T = accepted_package_payload_hashes[of example_crypto mismatched_config_package 8024 True
      "Some vmprog_public_key_0" "replicate 32 0x11"
      "example_signature vmprog_public_key_0 (example_descriptor_bytes (replicate 32 0x11))"
      vmprog_public_key_0, folded mismatched_config_package_def]
  have acc: "validate_vmprog_package example_crypto mismatched_config_package 8024 True True
     (Some vmprog_public_key_0) = Some ok"
    by (rule mismatched_accepted)
  have mem: "mk_toc_entry type_config 256 7372 (example_digest example_config_bytes)
     \<in> set (toc_of mismatched_config_package
               (header_view (bytes_at mismatched_config_package 0 64)))"
    by (simp add: mismatched_layout)
  have nz: "toc_size (mk_toc_entry type_config 256 7372 (example_digest example_config_bytes)) \<noteq> 0"
    by (simp add: mk_toc_entry_sel)
  from T acc mem nz
  have "\<forall>i<32. crypto_blake2b_256 example_crypto
          (bytes_at mismatched_config_package
             (unat (toc_offset (mk_toc_entry type_config 256 7372
                                  (example_digest example_config_bytes))))
             (unat (toc_size (mk_toc_entry type_config 256 7372
                                (example_digest example_config_bytes))))) ! i =
        toc_sha256 (mk_toc_entry type_config 256 7372 (example_digest example_config_bytes)) ! i"
    by blast
  then have "\<forall>i<32. example_digest (bytes_at mismatched_config_package 256 7372) ! i =
            example_digest example_config_bytes ! i"
    by (simp add: mk_toc_entry_sel word_facts example_crypto_def)
  then have hash: "map (\<lambda>i. example_digest (bytes_at mismatched_config_package 256 7372) ! i) [0..<32] =
     map (\<lambda>i. example_digest example_config_bytes ! i) [0..<32]"
    by simp
  have hl: "\<forall>m. length (crypto_blake2b_256 example_crypto m) = 32"
    by (simp add: example_digest_length)
  have ck: "crypto_ed25519_check example_crypto
     (example_signature vmprog_public_key_0 (example_descriptor_bytes (replicate 32 0x11)))
     vmprog_public_key_0 (example_descriptor_bytes (replicate 32 0x11))"
    by (simp add: example_crypto_def)
  have "length (replicate 32 (0x11::u8)) = 32" by simp
  with T hl ck example_signature_length
  have "desc_config_sha256
     (signed_descriptor_view (bytes_at mismatched_config_package 7628 332)) = replicate 32 0x11"
    by blast
  with acc mem hash hl ck show ?thesis by blast
qed

subsection \<open>The example file with duplicate entries\<close>

lemma dup_hdr_len: "length (header_bytes (example_header\<lparr>hdr_file_size := 15984, hdr_flags := 1,
     hdr_toc_bytes := 384, hdr_toc_count := 6\<rparr>)) = 64"
  by code_simp

lemma dup_hdr_view: "header_view (header_bytes (example_header\<lparr>hdr_file_size := 15984, hdr_flags := 1,
     hdr_toc_bytes := 384, hdr_toc_count := 6\<rparr>)) =
   example_header\<lparr>hdr_file_size := 15984, hdr_flags := 1, hdr_toc_bytes := 384, hdr_toc_count := 6\<rparr>"
  by code_simp

lemma dup_hdr_valid: "validate_vmprog_header_v1_0 (example_header\<lparr>hdr_file_size := 15984, hdr_flags := 1,
     hdr_toc_bytes := 384, hdr_toc_count := 6\<rparr>) 15984 = ok"
  by code_simp

lemma dup_hdr_facts:
  "is_package_signed (example_header\<lparr>hdr_file_size := 15984, hdr_flags := 1,
     hdr_toc_bytes := 384, hdr_toc_count := 6\<rparr>)"
  "is_hash_zero (hdr_sha256_package (example_header\<lparr>hdr_file_size := 15984, hdr_flags := 1,
     hdr_toc_bytes := 384, hdr_toc_count := 6\<rparr>))"
  "unat (hdr_toc_offset (example_header\<lparr>hdr_file_size := 15984, hdr_flags := 1,
     hdr_toc_bytes := 384, hdr_toc_count := 6\<rparr>)) = 64"
  "unat (hdr_toc_count (example_header\<lparr>hdr_file_size := 15984, hdr_flags := 1,
     hdr_toc_bytes := 384, hdr_toc_count := 6\<rparr>)) = 6"
  by code_simp+

lemma dup_toc_valid:
  "validate_vmprog_toc_entry_v1_0 (mk_toc_entry 1 448 7372 h) 15984 = ok"
  "validate_vmprog_toc_entry_v1_0 (mk_toc_entry 2 7820 332 h) 15984 = ok"
  "validate_vmprog_toc_entry_v1_0 (mk_toc_entry 3 8152 64 h) 15984 = ok"
  "validate_vmprog_toc_entry_v1_0 (mk_toc_entry 1 8216 7372 h) 15984 = ok"
  "validate_vmprog_toc_entry_v1_0 (mk_toc_entry 2 15588 332 h) 15984 = ok"
  "validate_vmprog_toc_entry_v1_0 (mk_toc_entry 3 15920 64 h) 15984 = ok"
  by code_simp+

lemma upt_6: "[0..<6] = [0, 1, 2, 3, 4, 5]" by code_simp

lemma dup_word_facts:
  "\<not> (15984::32 word) < 64" "unat (448::32 word) = 448" "unat (7372::32 word) = 7372"
  "unat (7820::32 word) = 7820" "unat (332::32 word) = 332" "unat (8152::32 word) = 8152"
  "unat (64::32 word) = 64" "unat (8216::32 word) = 8216" "unat (15588::32 word) = 15588"
  "unat (15920::32 word) = 15920"
  "(7372::32 word) \<noteq> 0" "(332::32 word) \<noteq> 0" "(64::32 word) \<noteq> 0"
  "(1::32 word) \<noteq> 2" "(1::32 word) \<noteq> 3" "(2::32 word) \<noteq> 3" "(2::32 word) \<noteq> 1"
  "(3::32 word) \<noteq> 1" "(3::32 word) \<noteq> 2"
  by simp_all

lemma duplicated_package_layout:
  assumes H: "\<And>m. length (crypto_blake2b_256 cr m) = 32"
    and d: "length d = 32" and s: "length sg = 64"
    and c2: "length cfg2 = 7372" and d2: "length desc2 = 332" and s2: "length sg2 = 64"
  shows "header_view (bytes_at (duplicated_package cr d sg cfg2 desc2 sg2) 0 64) =
           example_header\<lparr>hdr_file_size := 15984, hdr_flags := 1, hdr_toc_bytes := 384,
                               hdr_toc_count := 6\<rparr>"
    and "toc_of (duplicated_package cr d sg cfg2 desc2 sg2)
           (example_header\<lparr>hdr_file_size := 15984, hdr_flags := 1, hdr_toc_bytes := 384,
                               hdr_toc_count := 6\<rparr>) =
         [mk_toc_entry 1 448 7372 (crypto_blake2b_256 cr example_config_bytes),
          mk_toc_entry 2 7820 332 (crypto_blake2b_256 cr (example_descriptor_bytes d)),
          mk_toc_entry 3 8152 64 (crypto_blake2b_256 cr sg),
          mk_toc_entry 1 8216 7372 (crypto_blake2b_256 cr cfg2),
          mk_toc_entry 2 15588 332 (crypto_blake2b_256 cr desc2),
          mk_toc_entry 3 15920 64 (crypto_blake2b_256 cr sg2)]"
    and "read_bytes (duplicated_package cr d sg cfg2 desc2 sg2) 448 7372 = Some example_config_bytes"
    and "read_bytes (duplicated_package cr d sg cfg2 desc2 sg2) 7820 332 =
           Some (example_descriptor_bytes d)"
    and "read_bytes (duplicated_package cr d sg cfg2 desc2 sg2) 8152 64 = Some sg"
    and "read_bytes (duplicated_package cr d sg cfg2 desc2 sg2) 8216 7372 = Some cfg2"
    and "read_bytes (duplicated_package cr d sg cfg2 desc2 sg2) 15588 332 = Some desc2"
    and "read_bytes (duplicated_package cr d sg cfg2 desc2 sg2) 15920 64 = Some sg2"
proof -
  define hdr where "hdr = example_header\<lparr>hdr_file_size := 15984, hdr_flags := 1,
     hdr_toc_bytes := 384, hdr_toc_count := 6\<rparr>"
  define cfg where "cfg = example_config_bytes"
  define desc where "desc = example_descriptor_bytes d"
  define e1 where "e1 = mk_toc_entry 1 448 7372 (crypto_blake2b_256 cr cfg)"
  define e2 where "e2 = mk_toc_entry 2 7820 332 (crypto_blake2b_256 cr desc)"
  define e3 where "e3 = mk_toc_entry 3 8152 64 (crypto_blake2b_256 cr sg)"
  define e4 where "e4 = mk_toc_entry 1 8216 7372 (crypto_blake2b_256 cr cfg2)"
  define e5 where "e5 = mk_toc_entry 2 15588 332 (crypto_blake2b_256 cr desc2)"
  define e6 where "e6 = mk_toc_entry 3 15920 64 (crypto_blake2b_256 cr sg2)"
  define HB where "HB = header_bytes hdr"
  define T1 where "T1 = toc_entry_bytes e1"
  define T2 where "T2 = toc_entry_bytes e2"
  define T3 where "T3 = toc_entry_bytes e3"
  define T4 where "T4 = toc_entry_bytes e4"
  define T5 where "T5 = toc_entry_bytes e5"
  define T6 where "T6 = toc_entry_bytes e6"
  define pkg where "pkg = duplicated_package cr d sg cfg2 desc2 sg2"
  have pkg: "pkg = HB @ T1 @ T2 @ T3 @ T4 @ T5 @ T6 @ cfg @ desc @ sg @ cfg2 @ desc2 @ sg2"
    by (simp add: pkg_def duplicated_package_def HB_def T1_def T2_def T3_def T4_def T5_def T6_def
        e1_def e2_def e3_def e4_def e5_def e6_def hdr_def cfg_def desc_def)
  have len: "length HB = 64" "length T1 = 64" "length T2 = 64" "length T3 = 64"
    "length T4 = 64" "length T5 = 64" "length T6 = 64"
    "length cfg = 7372" "length desc = 332"
    by (simp_all add: HB_def hdr_def dup_hdr_len T1_def T2_def T3_def T4_def T5_def T6_def
        e1_def e2_def e3_def e4_def e5_def e6_def toc_len H cfg_def cfg_len desc_def desc_len d)
  have sl: "bytes_at pkg 0 64 = HB" "bytes_at pkg 64 64 = T1" "bytes_at pkg 128 64 = T2"
    "bytes_at pkg 192 64 = T3" "bytes_at pkg 256 64 = T4" "bytes_at pkg 320 64 = T5"
    "bytes_at pkg 384 64 = T6"
    by (simp_all add: pkg len slice_pre slice_post slice_all)
  have rd: "read_bytes pkg 448 7372 = Some cfg" "read_bytes pkg 7820 332 = Some desc"
    "read_bytes pkg 8152 64 = Some sg" "read_bytes pkg 8216 7372 = Some cfg2"
    "read_bytes pkg 15588 332 = Some desc2" "read_bytes pkg 15920 64 = Some sg2"
    by (simp_all add: read_bytes_def pkg len s c2 d2 s2 slice_pre slice_post slice_all)
  have hv: "header_view HB = hdr" by (simp add: HB_def hdr_def dup_hdr_view)
  have hf: "unat (hdr_toc_offset hdr) = 64" "unat (hdr_toc_count hdr) = 6"
    by (simp_all only: hdr_def dup_hdr_facts)
  have tv: "toc_entry_view T1 = e1" "toc_entry_view T2 = e2" "toc_entry_view T3 = e3"
    "toc_entry_view T4 = e4" "toc_entry_view T5 = e5" "toc_entry_view T6 = e6"
    by (simp_all add: T1_def T2_def T3_def T4_def T5_def T6_def e1_def e2_def e3_def e4_def
        e5_def e6_def toc_roundtrip_gen H)
  have toc: "toc_of pkg hdr = [e1, e2, e3, e4, e5, e6]"
    by (simp add: toc_of_def hf upt_6 sl tv)
  show "header_view (bytes_at (duplicated_package cr d sg cfg2 desc2 sg2) 0 64) =
           example_header\<lparr>hdr_file_size := 15984, hdr_flags := 1, hdr_toc_bytes := 384,
                               hdr_toc_count := 6\<rparr>"
    using sl(1) hv by (simp add: pkg_def hdr_def)
  show "toc_of (duplicated_package cr d sg cfg2 desc2 sg2)
           (example_header\<lparr>hdr_file_size := 15984, hdr_flags := 1, hdr_toc_bytes := 384,
                               hdr_toc_count := 6\<rparr>) =
         [mk_toc_entry 1 448 7372 (crypto_blake2b_256 cr example_config_bytes),
          mk_toc_entry 2 7820 332 (crypto_blake2b_256 cr (example_descriptor_bytes d)),
          mk_toc_entry 3 8152 64 (crypto_blake2b_256 cr sg),
          mk_toc_entry 1 8216 7372 (crypto_blake2b_256 cr cfg2),
          mk_toc_entry 2 15588 332 (crypto_blake2b_256 cr desc2),
          mk_toc_entry 3 15920 64 (crypto_blake2b_256 cr sg2)]"
    using toc by (simp only: pkg_def hdr_def e1_def e2_def e3_def e4_def e5_def e6_def cfg_def desc_def)
  show "read_bytes (duplicated_package cr d sg cfg2 desc2 sg2) 448 7372 = Some example_config_bytes"
    "read_bytes (duplicated_package cr d sg cfg2 desc2 sg2) 7820 332 =
           Some (example_descriptor_bytes d)"
    "read_bytes (duplicated_package cr d sg cfg2 desc2 sg2) 8152 64 = Some sg"
    "read_bytes (duplicated_package cr d sg cfg2 desc2 sg2) 8216 7372 = Some cfg2"
    "read_bytes (duplicated_package cr d sg cfg2 desc2 sg2) 15588 332 = Some desc2"
    "read_bytes (duplicated_package cr d sg cfg2 desc2 sg2) 15920 64 = Some sg2"
    using rd by (simp_all only: pkg_def cfg_def desc_def)
qed

lemma duplicated_package_accepted:
  assumes H: "\<And>m. length (crypto_blake2b_256 cr m) = 32"
    and d: "length d = 32" and s: "length sg = 64"
    and c2: "length cfg2 = 7372" and d2: "length desc2 = 332" and s2: "length sg2 = 64"
    and v: "crypto_ed25519_check cr sg key (example_descriptor_bytes d)"
  shows "validate_vmprog_package cr (duplicated_package cr d sg cfg2 desc2 sg2) 15984 True True
           (Some key) = Some ok"
proof -
  define hdr where "hdr = example_header\<lparr>hdr_file_size := 15984, hdr_flags := 1,
     hdr_toc_bytes := 384, hdr_toc_count := 6\<rparr>"
  define e1 where "e1 = mk_toc_entry 1 448 7372 (crypto_blake2b_256 cr example_config_bytes)"
  define e2 where
    "e2 = mk_toc_entry 2 7820 332 (crypto_blake2b_256 cr (example_descriptor_bytes d))"
  define e3 where "e3 = mk_toc_entry 3 8152 64 (crypto_blake2b_256 cr sg)"
  define e4 where "e4 = mk_toc_entry 1 8216 7372 (crypto_blake2b_256 cr cfg2)"
  define e5 where "e5 = mk_toc_entry 2 15588 332 (crypto_blake2b_256 cr desc2)"
  define e6 where "e6 = mk_toc_entry 3 15920 64 (crypto_blake2b_256 cr sg2)"
  define pkg where "pkg = duplicated_package cr d sg cfg2 desc2 sg2"
  note lay = duplicated_package_layout[OF H d s c2 d2 s2,
      folded hdr_def e1_def e2_def e3_def e4_def e5_def e6_def pkg_def]
  have hok: "validate_vmprog_header_v1_0 hdr 15984 = ok" by (simp add: hdr_def dup_hdr_valid)
  have hf: "is_package_signed hdr" "is_hash_zero (hdr_sha256_package hdr)"
    by (simp_all only: hdr_def dup_hdr_facts)
  have tok: "validate_vmprog_toc_entry_v1_0 e1 15984 = ok" "validate_vmprog_toc_entry_v1_0 e2 15984 = ok"
    "validate_vmprog_toc_entry_v1_0 e3 15984 = ok" "validate_vmprog_toc_entry_v1_0 e4 15984 = ok"
    "validate_vmprog_toc_entry_v1_0 e5 15984 = ok" "validate_vmprog_toc_entry_v1_0 e6 15984 = ok"
    by (simp_all add: e1_def e2_def e3_def e4_def e5_def e6_def dup_toc_valid)
  have sel: "toc_type e1 = 1" "toc_type e2 = 2" "toc_type e3 = 3"
    "toc_type e4 = 1" "toc_type e5 = 2" "toc_type e6 = 3"
    "toc_offset e1 = 448" "toc_offset e2 = 7820" "toc_offset e3 = 8152"
    "toc_offset e4 = 8216" "toc_offset e5 = 15588" "toc_offset e6 = 15920"
    "toc_size e1 = 7372" "toc_size e2 = 332" "toc_size e3 = 64"
    "toc_size e4 = 7372" "toc_size e5 = 332" "toc_size e6 = 64"
    "toc_sha256 e1 = crypto_blake2b_256 cr example_config_bytes"
    "toc_sha256 e2 = crypto_blake2b_256 cr (example_descriptor_bytes d)"
    "toc_sha256 e3 = crypto_blake2b_256 cr sg"
    "toc_sha256 e4 = crypto_blake2b_256 cr cfg2"
    "toc_sha256 e5 = crypto_blake2b_256 cr desc2"
    "toc_sha256 e6 = crypto_blake2b_256 cr sg2"
    by (simp_all add: e1_def e2_def e3_def e4_def e5_def e6_def mk_toc_entry_sel)
  have hb: "package_hashes_block cr pkg 15984 hdr = Some ok"
    by (simp add: package_hashes_block_def verify_all_payload_hashes_def lay sel tok
        dup_word_facts verify_hash_iff hf)
  have cb: "package_config_block pkg [e1, e2, e3, e4, e5, e6] = Some ok"
    by (simp add: package_config_block_def sel lay dup_word_facts cfg_valid)
  have db: "package_descriptor_block cr pkg hdr [e1, e2, e3, e4, e5, e6] True (Some key) = Some ok"
    by (simp add: package_descriptor_block_def sel lay dup_word_facts desc_valid d hf
        verify_ed25519_signature_def ed25519_verify_def v)
  show ?thesis
    unfolding pkg_def[symmetric]
    by (simp add: validate_vmprog_package_def Let_def lay hok tok hb cb db dup_word_facts)
qed

lemma example_digest_len: "length (example_digest m) = 32"
  by (simp add: example_digest_def bytes_le32_def)

lemma duplicate_entries_accepted:
  "validate_vmprog_package example_crypto duplicate_entries_package 15984 True True
     (Some vmprog_public_key_0) = Some ok"
  unfolding duplicate_entries_package_def
  by (rule duplicated_package_accepted)
     (simp_all add: example_digest_length example_signature_length example_digest_len,
      simp add: example_crypto_def)

lemma duplicate_entries_layout:
  "header_view (bytes_at duplicate_entries_package 0 64) =
     example_header\<lparr>hdr_file_size := 15984, hdr_flags := 1, hdr_toc_bytes := 384,
                         hdr_toc_count := 6\<rparr>"
  "toc_of duplicate_entries_package
     (example_header\<lparr>hdr_file_size := 15984, hdr_flags := 1, hdr_toc_bytes := 384,
                         hdr_toc_count := 6\<rparr>) = duplicate_entries_toc"
  "bytes_at duplicate_entries_package 7820 332 =
     example_descriptor_bytes (example_digest example_config_bytes)"
  "bytes_at duplicate_entries_package 8216 7372 = replicate 7372 0xFF"
  "bytes_at duplicate_entries_package 15588 332 = replicate 332 0xFF"
  "bytes_at duplicate_entries_package 15920 64 = replicate 64 0"
proof -
  note lay = duplicated_package_layout[of example_crypto "example_digest example_config_bytes"
      "example_signature vmprog_public_key_0
          (example_descriptor_bytes (example_digest example_config_bytes))"
      "replicate 7372 0xFF" "replicate 332 0xFF" "replicate 64 0",
      OF example_digest_length example_digest_len example_signature_length,
      folded duplicate_entries_package_def]
  show h: "header_view (bytes_at duplicate_entries_package 0 64) =
     example_header\<lparr>hdr_file_size := 15984, hdr_flags := 1, hdr_toc_bytes := 384,
                         hdr_toc_count := 6\<rparr>"
    using lay(1) by simp
  show "toc_of duplicate_entries_package
     (example_header\<lparr>hdr_file_size := 15984, hdr_flags := 1, hdr_toc_bytes := 384,
                         hdr_toc_count := 6\<rparr>) = duplicate_entries_toc"
    using lay(2) by (simp add: duplicate_entries_toc_def example_crypto_def)
  show "bytes_at duplicate_entries_package 7820 332 =
     example_descriptor_bytes (example_digest example_config_bytes)"
    using lay(4) by (simp add: read_bytes_Some)
  show "bytes_at duplicate_entries_package 8216 7372 = replicate 7372 0xFF"
    using lay(6) by (simp add: read_bytes_Some)
  show "bytes_at duplicate_entries_package 15588 332 = replicate 332 0xFF"
    using lay(7) by (simp add: read_bytes_Some)
  show "bytes_at duplicate_entries_package 15920 64 = replicate 64 0"
    using lay(8) by (simp add: read_bytes_Some)
qed

lemma second_config_invalid:
  "validate_vmprog_program_config_v1_0 (program_config_view (replicate 7372 0xFF)) \<noteq> ok"
proof -
  have "cfg_parameter_count (program_config_view (replicate 7372 0xFF)) = 0xFFFF"
    by (simp add: program_config_view_def le16_def)
  then show ?thesis by (simp add: validate_vmprog_program_config_v1_0_def)
qed

lemma second_descriptor_invalid:
  "validate_vmprog_signed_descriptor_v1_0 (signed_descriptor_view (replicate 332 0xFF)) \<noteq> ok"
proof -
  have "desc_artifact_count (signed_descriptor_view (replicate 332 0xFF)) = 0xFF"
    by (simp add: signed_descriptor_view_def)
  then show ?thesis by (simp add: validate_vmprog_signed_descriptor_v1_0_def)
qed

lemma second_signature_invalid:
  assumes "length d = 32"
  shows "\<not> verify_ed25519_signature example_crypto (replicate 64 0) vmprog_public_key_0
             (example_descriptor_bytes d)"
proof
  assume "verify_ed25519_signature example_crypto (replicate 64 0) vmprog_public_key_0
            (example_descriptor_bytes d)"
  then have "replicate 64 (0::u8) = example_signature vmprog_public_key_0 (example_descriptor_bytes d)"
    by (simp add: verify_ed25519_signature_def ed25519_verify_def example_crypto_def)
  then have "hd (replicate 64 (0::u8)) =
      hd (example_signature vmprog_public_key_0 (example_descriptor_bytes d))"
    by simp
  moreover have l: "length (vmprog_public_key_0 @ example_descriptor_bytes d) = 364"
    using assms by (simp add: desc_len vmprog_public_key_0_def)
  have h: "hd (example_signature k m) = ucast (word_of_nat (length (k @ m)) :: u32)" for k m
    by (simp add: example_signature_def example_digest_def bytes_le32_def del: length_append)
  have "hd (example_signature vmprog_public_key_0 (example_descriptor_bytes d)) = (0x6C::u8)"
    unfolding h l by code_simp
  ultimately show False by simp
qed

text \<open>Counterexample to C5 as stated: the header and all six TOC entries of the example file
  validate, all payload hashes verify, the TOC holds two entries of each of the types
  \<open>config\<close> (both of size 7372), \<open>signed_descriptor\<close> (both of size 332) and \<open>signature\<close>
  (both of size 64), and the package is accepted with \<open>verify_hashes\<close> and
  \<open>verify_signature\<close> set, although its second configuration and its second descriptor do
  not validate and its second signature does not verify.\<close>

theorem duplicate_entries_counterexample:
  "validate_vmprog_header_v1_0 (header_view (bytes_at duplicate_entries_package 0 64)) 15984 = ok \<and>
   validate_toc_entries
     (toc_of duplicate_entries_package (header_view (bytes_at duplicate_entries_package 0 64)))
     15984 = ok \<and>
   verify_all_payload_hashes example_crypto duplicate_entries_package 15984
     (header_view (bytes_at duplicate_entries_package 0 64)) = Some ok \<and>
   map (\<lambda>e. (toc_type e, toc_offset e, toc_size e))
     (toc_of duplicate_entries_package (header_view (bytes_at duplicate_entries_package 0 64))) =
     [(1, 448, 7372), (2, 7820, 332), (3, 8152, 64),
      (1, 8216, 7372), (2, 15588, 332), (3, 15920, 64)] \<and>
   map (count_toc_entries
          (toc_of duplicate_entries_package
             (header_view (bytes_at duplicate_entries_package 0 64))))
     [type_config, type_signed_descriptor, type_signature] = [2, 2, 2] \<and>
   validate_vmprog_program_config_v1_0
     (program_config_view (bytes_at duplicate_entries_package 8216 7372)) \<noteq> ok \<and>
   validate_vmprog_signed_descriptor_v1_0
     (signed_descriptor_view (bytes_at duplicate_entries_package 15588 332)) \<noteq> ok \<and>
   \<not> verify_ed25519_signature example_crypto (bytes_at duplicate_entries_package 15920 64)
       vmprog_public_key_0 (bytes_at duplicate_entries_package 7820 332) \<and>
   validate_vmprog_package example_crypto duplicate_entries_package 15984 True True
     (Some vmprog_public_key_0) = Some ok"
proof -
  note a = duplicate_entries_accepted[unfolded validate_ok_iff hashes_block_iff]
  show ?thesis
  proof (intro conjI)
    show "validate_vmprog_header_v1_0 (header_view (bytes_at duplicate_entries_package 0 64)) 15984 = ok"
      using a by blast
    show "validate_toc_entries
       (toc_of duplicate_entries_package (header_view (bytes_at duplicate_entries_package 0 64)))
       15984 = ok"
      using a by blast
    show "verify_all_payload_hashes example_crypto duplicate_entries_package 15984
       (header_view (bytes_at duplicate_entries_package 0 64)) = Some ok"
      unfolding verify_all_payload_hashes_def using a by blast
    show "map (\<lambda>e. (toc_type e, toc_offset e, toc_size e))
       (toc_of duplicate_entries_package (header_view (bytes_at duplicate_entries_package 0 64))) =
       [(1, 448, 7372), (2, 7820, 332), (3, 8152, 64),
        (1, 8216, 7372), (2, 15588, 332), (3, 15920, 64)]"
      by (simp add: duplicate_entries_layout duplicate_entries_toc_def mk_toc_entry_sel)
    show "map (count_toc_entries
          (toc_of duplicate_entries_package
             (header_view (bytes_at duplicate_entries_package 0 64))))
       [type_config, type_signed_descriptor, type_signature] = [2, 2, 2]"
      by (simp add: duplicate_entries_layout duplicate_entries_toc_def mk_toc_entry_sel)
    show "validate_vmprog_program_config_v1_0
       (program_config_view (bytes_at duplicate_entries_package 8216 7372)) \<noteq> ok"
      by (simp only: duplicate_entries_layout second_config_invalid not_False_eq_True)
    show "validate_vmprog_signed_descriptor_v1_0
       (signed_descriptor_view (bytes_at duplicate_entries_package 15588 332)) \<noteq> ok"
      by (simp only: duplicate_entries_layout second_descriptor_invalid not_False_eq_True)
    show "\<not> verify_ed25519_signature example_crypto (bytes_at duplicate_entries_package 15920 64)
         vmprog_public_key_0 (bytes_at duplicate_entries_package 7820 332)"
      by (simp only: duplicate_entries_layout second_signature_invalid[OF example_digest_len]
          not_False_eq_True)
    show "validate_vmprog_package example_crypto duplicate_entries_package 15984 True True
       (Some vmprog_public_key_0) = Some ok"
      by (rule duplicate_entries_accepted)
  qed
qed

text \<open>Witness for C5 as amended: the second \<open>config\<close> entry of the example file, the fourth
  entry of its TOC.\<close>

theorem duplicate_entries_ignored_witness:
  "toc_of duplicate_entries_package (header_view (bytes_at duplicate_entries_package 0 64)) =
     take 3 duplicate_entries_toc @ duplicate_entries_toc ! 3 # drop 4 duplicate_entries_toc \<and>
   find_toc_entry (take 3 duplicate_entries_toc) (toc_type (duplicate_entries_toc ! 3)) =
     Some (duplicate_entries_toc ! 0) \<and>
   toc_type (duplicate_entries_toc ! 3) = type_config \<and>
   toc_size (duplicate_entries_toc ! 3) = 7372 \<and>
   count_toc_entries
     (toc_of duplicate_entries_package (header_view (bytes_at duplicate_entries_package 0 64)))
     type_config = 2 \<and>
   validate_vmprog_package example_crypto duplicate_entries_package 15984 True True
     (Some vmprog_public_key_0) = Some ok \<and>
   package_config_block duplicate_entries_package
     (take 3 duplicate_entries_toc @ drop 4 duplicate_entries_toc) = Some ok \<and>
   package_descriptor_block example_crypto duplicate_entries_package
     (header_view (bytes_at duplicate_entries_package 0 64))
     (take 3 duplicate_entries_toc @ drop 4 duplicate_entries_toc) True
     (Some vmprog_public_key_0) = Some ok"
proof -
  have t: "toc_of duplicate_entries_package (header_view (bytes_at duplicate_entries_package 0 64)) =
     take 3 duplicate_entries_toc @ duplicate_entries_toc ! 3 # drop 4 duplicate_entries_toc"
    by (simp add: duplicate_entries_layout duplicate_entries_toc_def)
  have f: "find_toc_entry (take 3 duplicate_entries_toc) (toc_type (duplicate_entries_toc ! 3)) =
     Some (duplicate_entries_toc ! 0)"
    by (simp add: duplicate_entries_toc_def mk_toc_entry_sel)
  have s: "toc_type (duplicate_entries_toc ! 3) = type_config"
    "toc_size (duplicate_entries_toc ! 3) = 7372"
    by (simp_all add: duplicate_entries_toc_def mk_toc_entry_sel)
  note i = duplicate_entries_ignored[OF t f, of example_crypto 15984 True True
      "Some vmprog_public_key_0"]
  from i duplicate_entries_accepted
  have pc: "package_config_block duplicate_entries_package
     (take 3 duplicate_entries_toc @ drop 4 duplicate_entries_toc) = Some ok"
    and pd: "package_descriptor_block example_crypto duplicate_entries_package
     (header_view (bytes_at duplicate_entries_package 0 64))
     (take 3 duplicate_entries_toc @ drop 4 duplicate_entries_toc) True
     (Some vmprog_public_key_0) = Some ok"
    by blast+
  have c: "count_toc_entries (take 3 duplicate_entries_toc @ drop 4 duplicate_entries_toc)
      (toc_type (duplicate_entries_toc ! 3)) = 1"
    by (simp add: duplicate_entries_toc_def mk_toc_entry_sel)
  have n: "count_toc_entries
     (toc_of duplicate_entries_package (header_view (bytes_at duplicate_entries_package 0 64)))
     type_config = 2"
    using i[THEN conjunct2] c s(1) by simp
  from t f s n duplicate_entries_accepted pc pd show ?thesis by blast
qed

end
